theory Spec2Isabelle
  imports Complex_Main "HOL-Library.Sublist"
begin

chapter \<open>JSF2NG: the resilient run orchestrator of \<^verbatim>\<open>my_agent/JSF2NG.py\<close>\<close>

text \<open>
  A shallow embedding of the orchestration code of \<^verbatim>\<open>src/my_agent/JSF2NG.py\<close>: payload
  compaction, the memory bank, the session manager, the retrying executor
  \<^verbatim>\<open>observe_run\<close> and the aggregation pass of \<^verbatim>\<open>run_mod5_safe\<close>.

  Conventions of the model.
  \<^item> Python strings are \<open>string\<close>s; one \<open>char\<close> stands for one character of an ASCII text.
  \<^item> Python floats are rationals: the delays are read as exact numbers, without the
    rounding of IEEE arithmetic.
  \<^item> Everything a coroutine does to the outside is appended to a \<open>trace\<close> of effects, in
    program order: log lines, sleeps, calls of the runner, semaphore operations.
  \<^item> The opaque parts of the world (the runner, the wall clock, what other tasks and the
    operator do while this task is suspended) are read from an environment record.
  \<^item> The log file and the metrics file are taken to be writable: \<^verbatim>\<open>write_log\<close> and
    \<^verbatim>\<open>update_metric\<close> do not fail. The \<^verbatim>\<open>ts\<close> field that \<^verbatim>\<open>write_log\<close> adds to
    every line is left out.
\<close>

section \<open>Strings\<close>

text \<open>\<^verbatim>\<open>str.lower()\<close> on ASCII text.\<close>

definition lower_char :: "char \<Rightarrow> char" where
  "lower_char c =
     (case map_of (zip ''ABCDEFGHIJKLMNOPQRSTUVWXYZ'' ''abcdefghijklmnopqrstuvwxyz'') c of
        Some d \<Rightarrow> d
      | None \<Rightarrow> c)"

definition lower :: "string \<Rightarrow> string" where
  "lower s = map lower_char s"

text \<open>\<^verbatim>\<open>p in s\<close> for two strings: \<open>p\<close> occurs in \<open>s\<close> as a contiguous block.\<close>

fun py_in :: "string \<Rightarrow> string \<Rightarrow> bool" where
  "py_in p [] = (p = [])"
| "py_in p (c # s) = (prefix p (c # s) \<or> py_in p s)"

text \<open>\<^verbatim>\<open>s.endswith(suf)\<close>.\<close>

definition endswith :: "string \<Rightarrow> string \<Rightarrow> bool" where
  "endswith s suf = prefix (rev suf) (rev s)"

text \<open>
  \<^verbatim>\<open>xs[:n]\<close>: the first \<open>n\<close> elements, and for a negative \<open>n\<close> all but the last \<open>-n\<close>.
\<close>

definition slice_to :: "'a list \<Rightarrow> int \<Rightarrow> 'a list" where
  "slice_to xs n =
     (if 0 \<le> n then take (nat n) xs else take (length xs - nat (- n)) xs)"

section \<open>Payload values and compaction\<close>

text \<open>
  The payloads of this program are JSON values: the list of page paths, and a mapping
  that holds a path and what \<^verbatim>\<open>json.load\<close> read from the memory snapshot. A mapping is a
  list of fields in insertion order.
\<close>

datatype pyval =
    PStr string
  | PDict "(string \<times> pyval) list"
  | PList "pyval list"
  | PInt int
  | PBool bool
  | PNone

text \<open>\<^verbatim>\<open>compact_context(obj, max_chars)\<close>, lines 213-231.\<close>

function compact_context :: "pyval \<Rightarrow> int \<Rightarrow> pyval" where
  "compact_context (PStr s) max_chars =
     (if int (length s) \<le> max_chars then PStr s
      else PStr (slice_to s max_chars @ ''...[truncated]''))"
| "compact_context (PDict kvs) max_chars =
     PDict (map (\<lambda>(k, v). (k, compact_context v
        (if endswith (lower k) ''content'' then max_chars div 4 else max_chars))) kvs)"
| "compact_context (PList xs) max_chars =
     (let obj = (if length xs > 50 then take 50 xs @ [PStr ''...[truncated items]''] else xs)
      in PList (map (\<lambda>x. compact_context x max_chars) obj))"
| "compact_context (PInt i) max_chars = PInt i"
| "compact_context (PBool b) max_chars = PBool b"
| "compact_context PNone max_chars = PNone"
  by pat_completeness auto
termination
proof (relation "measure (\<lambda>(v, m). size v)", goal_cases)
  case 1
  show ?case by simp
next
  case (2 kvs max_chars x k v)
  then have "(k, v) \<in> set kvs" by simp
  then have "size v < Suc (size_list (size_prod (\<lambda>x. 0) size) kvs)"
    by (induction kvs) auto
  then show ?case by simp
next
  case (3 xs max_chars obj x)
  then have "x \<in> set xs \<or> x = PStr ''...[truncated items]''"
    by (auto split: if_splits dest: in_set_takeD)
  moreover have "x \<in> set xs \<Longrightarrow> size x < Suc (size_list size xs)"
    by (induction xs) auto
  ultimately show ?case by auto
qed

section \<open>Configuration\<close>

text \<open>
  The module constants of lines 28-32, read from the process environment with the
  defaults below.
\<close>

record config =
  max_concurrent_migrations :: int
  max_retries :: int
  base_retry_delay :: rat
  quota_backoff_initial :: rat

definition default_config :: config where
  "default_config =
     \<lparr>max_concurrent_migrations = 2, max_retries = 4,
      base_retry_delay = 5, quota_backoff_initial = 30\<rparr>"

section \<open>The memory bank\<close>







section \<open>The session manager\<close>

text \<open>
  \<^verbatim>\<open>class SessionManager\<close>, lines 119-160. A session is the dictionary
  \<^verbatim>\<open>{"paused", "pause_event", "cancel"}\<close>; \<open>pause_event\<close> is \<open>True\<close> when the
  \<^verbatim>\<open>asyncio.Event\<close> is set, that is when the gate is open.
\<close>

record session =
  paused :: bool
  pause_event :: bool
  cancel_flag :: bool

type_synonym session_table = "string \<rightharpoonup> session"

definition create_session :: "string \<Rightarrow> session_table \<Rightarrow> session_table" where
  "create_session session_id ss =
     (if session_id \<in> dom ss then ss
      else ss(session_id \<mapsto> \<lparr>paused = False, pause_event = True, cancel_flag = False\<rparr>))"

definition pause :: "string \<Rightarrow> session_table \<Rightarrow> session_table" where
  "pause session_id ss =
     (case ss session_id of
        None \<Rightarrow> ss
      | Some s \<Rightarrow> ss(session_id \<mapsto> s\<lparr>paused := True, pause_event := False\<rparr>))"

definition resume :: "string \<Rightarrow> session_table \<Rightarrow> session_table" where
  "resume session_id ss =
     (case ss session_id of
        None \<Rightarrow> ss
      | Some s \<Rightarrow> ss(session_id \<mapsto> s\<lparr>paused := False, pause_event := True\<rparr>))"

definition cancel :: "string \<Rightarrow> session_table \<Rightarrow> session_table" where
  "cancel session_id ss =
     (case ss session_id of
        None \<Rightarrow> ss
      | Some s \<Rightarrow> ss(session_id \<mapsto> s\<lparr>cancel_flag := True, pause_event := True\<rparr>))"

definition is_cancelled :: "string \<Rightarrow> session_table \<Rightarrow> bool" where
  "is_cancelled session_id ss =
     (case ss session_id of None \<Rightarrow> False | Some s \<Rightarrow> cancel_flag s)"

definition get_event :: "string \<Rightarrow> session_table \<Rightarrow> bool option" where
  "get_event session_id ss =
     (case ss session_id of None \<Rightarrow> None | Some s \<Rightarrow> Some (pause_event s))"

text \<open>
  The control surface is called from outside the run, while the tasks of the run are
  suspended. A \<open>control\<close> is one such call.
\<close>

datatype control = Create string | Pause string | Resume string | Cancel string

fun control_step :: "control \<Rightarrow> session_table \<Rightarrow> session_table" where
  "control_step (Create i) ss = create_session i ss"
| "control_step (Pause i) ss = pause i ss"
| "control_step (Resume i) ss = resume i ss"
| "control_step (Cancel i) ss = cancel i ss"

text \<open>
  A task suspended in \<^verbatim>\<open>pause_event.wait()\<close> of a session it knows is woken by a call
  that sets this event: \<^verbatim>\<open>resume\<close> or \<^verbatim>\<open>cancel\<close> of that session. Once woken it goes
  on, whatever was called after.
\<close>

definition wakes :: "string \<Rightarrow> control list \<Rightarrow> bool" where
  "wakes session_id ops = (Resume session_id \<in> set ops \<or> Cancel session_id \<in> set ops)"

section \<open>The world of one task\<close>

text \<open>
  The event log (\<^verbatim>\<open>write_log\<close>, lines 51-56): one constructor for each kind of line
  the orchestrator writes, with the fields of the line.
\<close>

datatype log_entry =
    Cancelled string int
  | Start_attempt string int
  | Success string int rat
  | Error string int rat string
  | Quota_backoff string int rat
  | Non_retriable string string
  | Max_retries_exceeded string string
  | Finished_observe_run string rat int
  | Evaluation_backoff string int rat
  | Evaluation_model_overloaded string int rat

text \<open>
  The fields are: \<open>Cancelled label attempt\<close>, \<open>Start_attempt label attempt\<close>,
  \<open>Success label attempt duration\<close>, \<open>Error label attempt duration error\<close>,
  \<open>Quota_backoff label attempt wait_seconds\<close>, \<open>Non_retriable label message\<close>,
  \<open>Max_retries_exceeded label last_error\<close>,
  \<open>Finished_observe_run label total_duration attempts\<close>,
  \<open>Evaluation_backoff page retry wait_seconds\<close> and
  \<open>Evaluation_model_overloaded page retry wait_seconds\<close>.
\<close>

datatype effect =
    Log log_entry
  | Sleep rat
  | Call_runner pyval
  | Acquire
  | Release

record world =
  sessions :: session_table
  metrics_file :: "(string \<rightharpoonup> int) option"
  sem_value :: nat
  trace :: "effect list"

text \<open>
  What one call of \<^verbatim>\<open>observe_run\<close> meets. \<open>run_debug n\<close> is what the runner does when it
  is called in attempt \<open>n\<close>: it returns a result (given by its \<^verbatim>\<open>str()\<close> text), raises
  an \<^verbatim>\<open>Exception\<close> with a message, or raises something that \<^verbatim>\<open>except Exception\<close>
  does not catch (the \<^verbatim>\<open>CancelledError\<close> of a cancelled task, a
  \<^verbatim>\<open>KeyboardInterrupt\<close>). \<open>now_ts\<close> is the clock read at each place that reads it.
  \<open>gate_ops n\<close>, \<open>call_ops n\<close> and \<open>sleep_ops n\<close> are the calls of the control surface
  made while the task is suspended in attempt \<open>n\<close>: on the pause gate, in the runner, in
  the backoff sleep. \<open>sem_freed\<close> is the number of slots the other tasks release while
  this one waits for the semaphore.
\<close>

datatype call_outcome = Returns string | Raises string | Aborts

datatype clock_point = Start_all | Attempt_start int | Attempt_end int | Finish

record env =
  run_debug :: "int \<Rightarrow> call_outcome"
  now_ts :: "clock_point \<Rightarrow> rat"
  gate_ops :: "int \<Rightarrow> control list"
  call_ops :: "int \<Rightarrow> control list"
  sleep_ops :: "int \<Rightarrow> control list"
  sem_freed :: nat

definition emit :: "effect \<Rightarrow> world \<Rightarrow> world" where
  "emit e w = w\<lparr>trace := trace w @ [e]\<rparr>"

definition write_log :: "log_entry \<Rightarrow> world \<Rightarrow> world" where
  "write_log entry w = emit (Log entry) w"

definition others :: "control list \<Rightarrow> world \<Rightarrow> world" where
  "others ops w = w\<lparr>sessions := fold control_step ops (sessions w)\<rparr>"

text \<open>\<^verbatim>\<open>await asyncio.sleep(wait)\<close>, with what the others do meanwhile.\<close>

definition sleep :: "rat \<Rightarrow> control list \<Rightarrow> world \<Rightarrow> world" where
  "sleep wait ops w = others ops (emit (Sleep wait) w)"

text \<open>\<^verbatim>\<open>load_metrics\<close> and \<^verbatim>\<open>update_metric\<close>, lines 59-73; a missing or unreadable file
  is \<open>None\<close>.\<close>

definition load_metrics :: "world \<Rightarrow> (string \<rightharpoonup> int)" where
  "load_metrics w = (case metrics_file w of None \<Rightarrow> Map.empty | Some m \<Rightarrow> m)"

definition update_metric :: "string \<Rightarrow> int \<Rightarrow> world \<Rightarrow> world" where
  "update_metric k v w = w\<lparr>metrics_file := Some ((load_metrics w)(k \<mapsto> v))\<rparr>"

text \<open>Lines 277-280: the count of successful runs goes up by one.\<close>

definition count_successful_run :: "world \<Rightarrow> world" where
  "count_successful_run w =
     (let m = load_metrics w;
          n = (case m ''successful_runs'' of None \<Rightarrow> 0 | Some n \<Rightarrow> n) + 1
      in update_metric ''successful_runs'' n w)"

text \<open>
  \<^verbatim>\<open>asyncio.Semaphore\<close>: \<^verbatim>\<open>acquire\<close> takes a free slot at once; with none free it waits
  for a release of another task, and for ever when none comes (\<open>None\<close>).
\<close>

definition acquire :: "env \<Rightarrow> world \<Rightarrow> world option" where
  "acquire e w =
     (if 0 < sem_value w then Some (emit Acquire (w\<lparr>sem_value := sem_value w - 1\<rparr>))
      else if 0 < sem_freed e then Some (emit Acquire (w\<lparr>sem_value := sem_freed e - 1\<rparr>))
      else None)"

definition release :: "world \<Rightarrow> world" where
  "release w = emit Release (w\<lparr>sem_value := sem_value w + 1\<rparr>)"

text \<open>
  Lines 262-264: \<^verbatim>\<open>ev = get_event(session); if ev: await ev.wait()\<close>. With the gate open
  the task goes on at once. With the gate closed it is suspended; it goes on after the
  calls of \<open>gate_ops\<close> when one of them sets the event, and never otherwise (\<open>None\<close>).
\<close>

definition wait_gate :: "env \<Rightarrow> string \<Rightarrow> int \<Rightarrow> world \<Rightarrow> world option" where
  "wait_gate e session_id attempt w =
     (case get_event session_id (sessions w) of
        None \<Rightarrow> Some w
      | Some is_set \<Rightarrow>
          if is_set then Some w
          else if wakes session_id (gate_ops e attempt)
               then Some (others (gate_ops e attempt) w)
               else None)"

section \<open>The retrying executor\<close>

text \<open>
  What a call gives back: the runner's result, or the dictionary \<^verbatim>\<open>{"error": msg}\<close>.
  A call returns, lets an exception through, or stays suspended for ever.
\<close>

datatype run_result = Runner_result string | Error_result string

datatype 'a outcome = Returned 'a | Raised | Blocked

text \<open>\<^verbatim>\<open>str(last_exc)\<close>: the message, and \<^verbatim>\<open>None\<close> before the first failure.\<close>

definition str_exc :: "string option \<Rightarrow> string" where
  "str_exc last_exc = (case last_exc of None \<Rightarrow> ''None'' | Some msg \<Rightarrow> msg)"

text \<open>
  The loop of lines 259-306. The result holds the value of \<^verbatim>\<open>attempt\<close> when the loop
  is left, which the \<^verbatim>\<open>finally\<close> block logs.
\<close>

function retry_loop ::
  "config \<Rightarrow> env \<Rightarrow> pyval \<Rightarrow> string \<Rightarrow> string \<Rightarrow> int \<Rightarrow> string option \<Rightarrow> world
     \<Rightarrow> run_result outcome \<times> int \<times> world" where
  "retry_loop cfg e payload run_label session_id attempt last_exc w =
     (if attempt < max_retries cfg then
        (let attempt = attempt + 1
         in case wait_gate e session_id attempt w of
              None \<Rightarrow> (Blocked, attempt, w)
            | Some w \<Rightarrow>
                if is_cancelled session_id (sessions w) then
                  (Returned (Error_result ''CANCELLED''), attempt,
                   write_log (Cancelled run_label attempt) w)
                else
                  (let start = now_ts e (Attempt_start attempt);
                       w = write_log (Start_attempt run_label attempt) w;
                       w = others (call_ops e attempt) (emit (Call_runner payload) w)
                   in case run_debug e attempt of
                        Returns result \<Rightarrow>
                          (let duration = now_ts e (Attempt_end attempt) - start;
                               w = write_log (Success run_label attempt duration) w;
                               w = count_successful_run w
                           in (Returned (Runner_result result), attempt, w))
                      | Aborts \<Rightarrow> (Raised, attempt, w)
                      | Raises msg \<Rightarrow>
                          (let duration = now_ts e (Attempt_end attempt) - start;
                               w = write_log (Error run_label attempt duration msg) w;
                               low = lower msg
                           in if py_in ''resource_exhausted'' low \<or> py_in ''quota'' low
                                 \<or> py_in ''429'' low \<or> py_in ''rate-limit'' low then
                                (let wait = quota_backoff_initial cfg * (3 / 2) ^ nat (attempt - 1);
                                     w = write_log (Quota_backoff run_label attempt wait) w;
                                     w = sleep wait (sleep_ops e attempt) w
                                 in retry_loop cfg e payload run_label session_id attempt (Some msg) w)
                              else if py_in ''unavailable'' low \<or> py_in ''timeout'' low
                                      \<or> py_in ''internal'' low then
                                (let wait = base_retry_delay cfg * 2 ^ nat (attempt - 1);
                                     w = sleep wait (sleep_ops e attempt) w
                                 in retry_loop cfg e payload run_label session_id attempt (Some msg) w)
                              else
                                (Returned (Error_result msg), attempt,
                                 write_log (Non_retriable run_label msg) w))))
      else
        (Returned (Error_result (''Max retries exceeded: '' @ str_exc last_exc)), attempt,
         write_log (Max_retries_exceeded run_label (str_exc last_exc)) w))"
  by pat_completeness auto
termination
  by (relation "measure (\<lambda>(cfg, e, payload, run_label, session_id, attempt, last_exc, w).
        nat (max_retries cfg - attempt))") auto

declare retry_loop.simps [simp del]

text \<open>
  \<^verbatim>\<open>observe_run(runner, payload, run_label, session_id, semaphore)\<close>, lines 234-312.
  \<open>semaphore\<close> says whether a semaphore was passed. The payload handed to the runner is
  the compacted one (serialised by \<^verbatim>\<open>json.dumps\<close> unless it is a string). The
  \<^verbatim>\<open>finally\<close> block runs when the loop returns and when it lets an exception through.
\<close>

definition observe_run ::
  "config \<Rightarrow> env \<Rightarrow> pyval \<Rightarrow> string \<Rightarrow> string option \<Rightarrow> bool \<Rightarrow> world
     \<Rightarrow> run_result outcome \<times> world" where
  "observe_run cfg e payload run_label session_id semaphore w =
     (let compacted = compact_context payload 4000;
          start_all = now_ts e Start_all;
          session = (case session_id of
                       None \<Rightarrow> ''session_default''
                     | Some i \<Rightarrow> if i = [] then ''session_default'' else i)
      in case (if semaphore then acquire e w else Some w) of
           None \<Rightarrow> (Blocked, w)
         | Some w \<Rightarrow>
             (let w = w\<lparr>sessions := create_session session (sessions w)\<rparr>;
                  (out, attempt, w) = retry_loop cfg e compacted run_label session 0 None w
              in if out = Blocked then (Blocked, w)
                 else
                   (let w = (if semaphore then release w else w);
                        total_dur = now_ts e Finish - start_all;
                        w = write_log (Finished_observe_run run_label total_dur attempt) w
                    in (out, w))))"

section \<open>The aggregation pass\<close>

text \<open>
  \<^verbatim>\<open>repr\<close> of an ASCII string, as \<^verbatim>\<open>str\<close> of a dictionary prints its keys and values:
  double quotes when the string has a single quote and no double quote, single quotes
  otherwise; the quote and the backslash escaped; tab, newline and return as
  \<^verbatim>\<open>\t\<close>, \<^verbatim>\<open>\n\<close>, \<^verbatim>\<open>\r\<close>; the other control characters as \<^verbatim>\<open>\xhh\<close>.
\<close>

definition hex_digit :: "nat \<Rightarrow> char" where
  "hex_digit n = ''0123456789abcdef'' ! (n mod 16)"

definition repr_char :: "char \<Rightarrow> char \<Rightarrow> string" where
  "repr_char q c =
     (if c = q \<or> c = CHR 0x5C then [CHR 0x5C, c]
      else if c = CHR 0x09 then [CHR 0x5C, CHR ''t'']
      else if c = CHR 0x0A then [CHR 0x5C, CHR ''n'']
      else if c = CHR 0x0D then [CHR 0x5C, CHR ''r'']
      else if (of_char c :: nat) < 32 \<or> c = CHR 0x7F
           then [CHR 0x5C, CHR ''x'', hex_digit (of_char c div 16), hex_digit (of_char c)]
      else [c])"

definition py_repr :: "string \<Rightarrow> string" where
  "py_repr s =
     (let q = (if CHR 0x27 \<in> set s \<and> CHR 0x22 \<notin> set s then CHR 0x22 else CHR 0x27)
      in [q] @ concat (map (repr_char q) s) @ [q])"

text \<open>\<^verbatim>\<open>str(result)\<close>: the text of a runner result, and \<^verbatim>\<open>{'error': '...'}\<close>.\<close>

fun py_str :: "run_result \<Rightarrow> string" where
  "py_str (Runner_result t) = t"
| "py_str (Error_result msg) = ''{'' @ py_repr ''error'' @ '': '' @ py_repr msg @ ''}''"

record evaluation =
  score :: rat
  issues :: "string list"
  summary :: string

definition max_eval_retries :: int where
  "max_eval_retries = 5"

text \<open>
  The \<^verbatim>\<open>while\<close> loop of lines 500-534, for one page. \<open>recorded p k\<close> is the number of
  results that fan-out tasks still running store in \<^verbatim>\<open>migration_results\<close> during the
  sleep of page \<open>p\<close> in retry \<open>k\<close>; the loop adds them up in \<open>late\<close>.
\<close>

function evaluation_loop ::
  "(string \<Rightarrow> int \<Rightarrow> nat) \<Rightarrow> string \<Rightarrow> run_result \<Rightarrow> int \<Rightarrow> rat
     \<Rightarrow> (string \<rightharpoonup> evaluation) \<Rightarrow> nat \<Rightarrow> world
     \<Rightarrow> (string \<rightharpoonup> evaluation) \<times> nat \<times> world" where
  "evaluation_loop recorded page result retry wait evaluations late w =
     (if retry < max_eval_retries then
        (let retry = retry + 1;
             summary = lower (take 2000 (py_str result))
         in if py_in ''resource_exhausted'' summary \<or> py_in ''quota'' summary
               \<or> py_in ''429'' summary then
              (let w = write_log (Evaluation_backoff page retry wait) w;
                   w = emit (Sleep wait) w;
                   late = late + recorded page retry;
                   wait = wait * 2
               in evaluation_loop recorded page result retry wait evaluations late w)
            else if py_in ''unavailable'' summary \<or> py_in ''503'' summary then
              (let w = write_log (Evaluation_model_overloaded page retry wait) w;
                   w = emit (Sleep wait) w;
                   late = late + recorded page retry;
                   wait = wait * (3 / 2)
               in evaluation_loop recorded page result retry wait evaluations late w)
            else
              (evaluations(page \<mapsto>
                 \<lparr>score = 9, issues = [], summary = take 1000 (py_str result)\<rparr>),
               late, w))
      else (evaluations, late, w))"
  by pat_completeness auto
termination
  by (relation "measure (\<lambda>(recorded, page, result, retry, wait, evaluations, late, w).
        nat (max_eval_retries - retry))") auto

declare evaluation_loop.simps [simp del]

text \<open>The body of the \<^verbatim>\<open>for\<close> loop, lines 496-542.\<close>

definition evaluate_page ::
  "(string \<Rightarrow> int \<Rightarrow> nat) \<Rightarrow> string \<Rightarrow> run_result \<Rightarrow> (string \<rightharpoonup> evaluation) \<Rightarrow> world
     \<Rightarrow> (string \<rightharpoonup> evaluation) \<times> nat \<times> world" where
  "evaluate_page recorded page result evaluations w =
     (let (evaluations, late, w) = evaluation_loop recorded page result 0 30 evaluations 0 w;
          evaluations =
            (if page \<notin> dom evaluations then
               evaluations(page \<mapsto>
                 \<lparr>score = 5, issues = [''Evaluation deferred due to quota exhaustion''],
                  summary = take 1000 (py_str result)\<rparr>)
             else evaluations)
      in (evaluations, late, w))"

text \<open>
  \<^verbatim>\<open>for page, result in migration_results.items()\<close>, lines 494-542, over the results
  stored when the pass starts, in insertion order. A dictionary that has grown since the
  iteration started makes the next step of the iteration raise \<^verbatim>\<open>RuntimeError\<close>.
\<close>

datatype py_error = RuntimeError

fun aggregate ::
  "(string \<Rightarrow> int \<Rightarrow> nat) \<Rightarrow> (string \<times> run_result) list \<Rightarrow> (string \<rightharpoonup> evaluation) \<Rightarrow> world
     \<Rightarrow> py_error + (string \<rightharpoonup> evaluation) \<times> world" where
  "aggregate recorded [] evaluations w = Inr (evaluations, w)"
| "aggregate recorded ((page, result) # rest) evaluations w =
     (let (evaluations, late, w) = evaluate_page recorded page result evaluations w
      in if 0 < late then Inl RuntimeError
         else aggregate recorded rest evaluations w)"

definition aggregation_pass ::
  "(string \<Rightarrow> int \<Rightarrow> nat) \<Rightarrow> (string \<times> run_result) list \<Rightarrow> world
     \<Rightarrow> py_error + (string \<rightharpoonup> evaluation) \<times> world" where
  "aggregation_pass recorded migration_results w =
     aggregate recorded migration_results Map.empty w"

section \<open>Predicates of the properties\<close>

text \<open>
  \<open>same_kind v v'\<close>: \<open>v'\<close> is a value of the kind of \<open>v\<close>; a mapping has the same keys in
  the same order, and a value that is no string, list or mapping is the same value.
\<close>

fun same_kind :: "pyval \<Rightarrow> pyval \<Rightarrow> bool" where
  "same_kind (PStr s) v = (case v of PStr t \<Rightarrow> True | _ \<Rightarrow> False)"
| "same_kind (PDict kvs) v = (case v of PDict kvs' \<Rightarrow> map fst kvs = map fst kvs' | _ \<Rightarrow> False)"
| "same_kind (PList xs) v = (case v of PList ys \<Rightarrow> True | _ \<Rightarrow> False)"
| "same_kind (PInt i) v = (v = PInt i)"
| "same_kind (PBool b) v = (v = PBool b)"
| "same_kind PNone v = (v = PNone)"

text \<open>
  \<open>fits n k v m\<close>: under the budget \<open>m\<close>, every string of \<open>v\<close> is at most \<open>k\<close>
  characters longer than the budget that holds where it stands, and every list of \<open>v\<close>
  has at most \<open>n\<close> elements. The budget of a field is the one \<^verbatim>\<open>compact_context\<close> gives
  it.
\<close>

function fits :: "nat \<Rightarrow> int \<Rightarrow> pyval \<Rightarrow> int \<Rightarrow> bool" where
  "fits n k (PStr s) m = (int (length s) \<le> m + k)"
| "fits n k (PDict kvs) m =
     list_all (\<lambda>(key, v). fits n k v
        (if endswith (lower key) ''content'' then m div 4 else m)) kvs"
| "fits n k (PList xs) m = (length xs \<le> n \<and> list_all (\<lambda>x. fits n k x m) xs)"
| "fits n k (PInt i) m = True"
| "fits n k (PBool b) m = True"
| "fits n k PNone m = True"
  by pat_completeness auto
termination
proof (relation "measure (\<lambda>(n, k, v, m). size v)", goal_cases)
  case 1
  show ?case by simp
next
  case (2 n k kvs m x key v)
  then have "(key, v) \<in> set kvs" by simp
  then have "size v < Suc (size_list (size_prod (\<lambda>x. 0) size) kvs)"
    by (induction kvs) auto
  then show ?case by simp
next
  case (3 n k xs m x)
  then have "size x < Suc (size_list size xs)"
    by (induction xs) auto
  then show ?case by simp
qed

text \<open>
  The two classes of failure messages of the executor: the substrings looked for in the
  lower-case message.
\<close>

definition quota_class :: "string \<Rightarrow> bool" where
  "quota_class msg =
     (py_in ''resource_exhausted'' (lower msg) \<or> py_in ''quota'' (lower msg)
      \<or> py_in ''429'' (lower msg) \<or> py_in ''rate-limit'' (lower msg))"

definition transient_class :: "string \<Rightarrow> bool" where
  "transient_class msg =
     (py_in ''unavailable'' (lower msg) \<or> py_in ''timeout'' (lower msg)
      \<or> py_in ''internal'' (lower msg))"

text \<open>The world after \<^verbatim>\<open>start_attempt\<close> is logged and the runner was called.\<close>

definition begin_attempt :: "env \<Rightarrow> pyval \<Rightarrow> string \<Rightarrow> int \<Rightarrow> world \<Rightarrow> world" where
  "begin_attempt e payload run_label n w =
     others (call_ops e n) (emit (Call_runner payload) (write_log (Start_attempt run_label n) w))"

text \<open>The log lines of a trace, and those that report how a call ended.\<close>

fun log_of :: "effect list \<Rightarrow> log_entry list" where
  "log_of [] = []"
| "log_of (Log entry # tr) = entry # log_of tr"
| "log_of (x # tr) = log_of tr"




text \<open>
  The traces of the retry loop, as a grammar: what the loop appends to the trace when it
  starts with the counter at \<open>attempt\<close>, with the outcome and the counter it ends with.
\<close>

inductive loop_trace ::
  "config \<Rightarrow> pyval \<Rightarrow> string \<Rightarrow> int \<Rightarrow> effect list \<Rightarrow> run_result outcome \<Rightarrow> int \<Rightarrow> bool"
  for cfg :: config and payload :: pyval and run_label :: string where
  exhausted:
    "\<not> attempt < max_retries cfg \<Longrightarrow>
     loop_trace cfg payload run_label attempt
       [Log (Max_retries_exceeded run_label last_error)]
       (Returned (Error_result (''Max retries exceeded: '' @ last_error))) attempt"
| blocked:
    "attempt < max_retries cfg \<Longrightarrow>
     loop_trace cfg payload run_label attempt [] Blocked (attempt + 1)"
| cancelled:
    "attempt < max_retries cfg \<Longrightarrow>
     loop_trace cfg payload run_label attempt
       [Log (Cancelled run_label (attempt + 1))]
       (Returned (Error_result ''CANCELLED'')) (attempt + 1)"
| success:
    "attempt < max_retries cfg \<Longrightarrow>
     loop_trace cfg payload run_label attempt
       [Log (Start_attempt run_label (attempt + 1)), Call_runner payload,
        Log (Success run_label (attempt + 1) d)]
       (Returned (Runner_result result)) (attempt + 1)"
| aborted:
    "attempt < max_retries cfg \<Longrightarrow>
     loop_trace cfg payload run_label attempt
       [Log (Start_attempt run_label (attempt + 1)), Call_runner payload]
       Raised (attempt + 1)"
| quota:
    "attempt < max_retries cfg \<Longrightarrow> quota_class msg \<Longrightarrow>
     loop_trace cfg payload run_label (attempt + 1) new out n \<Longrightarrow>
     loop_trace cfg payload run_label attempt
       ([Log (Start_attempt run_label (attempt + 1)), Call_runner payload,
         Log (Error run_label (attempt + 1) d msg),
         Log (Quota_backoff run_label (attempt + 1)
                (quota_backoff_initial cfg * (3 / 2) ^ nat attempt)),
         Sleep (quota_backoff_initial cfg * (3 / 2) ^ nat attempt)] @ new)
       out n"
| transient:
    "attempt < max_retries cfg \<Longrightarrow> \<not> quota_class msg \<Longrightarrow> transient_class msg \<Longrightarrow>
     loop_trace cfg payload run_label (attempt + 1) new out n \<Longrightarrow>
     loop_trace cfg payload run_label attempt
       ([Log (Start_attempt run_label (attempt + 1)), Call_runner payload,
         Log (Error run_label (attempt + 1) d msg),
         Sleep (base_retry_delay cfg * 2 ^ nat attempt)] @ new)
       out n"
| fatal:
    "attempt < max_retries cfg \<Longrightarrow> \<not> quota_class msg \<Longrightarrow> \<not> transient_class msg \<Longrightarrow>
     loop_trace cfg payload run_label attempt
       [Log (Start_attempt run_label (attempt + 1)), Call_runner payload,
        Log (Error run_label (attempt + 1) d msg),
        Log (Non_retriable run_label msg)]
       (Returned (Error_result msg)) (attempt + 1)"

text \<open>
  \<open>quota_backoffs_ok q tr\<close>: in the trace \<open>tr\<close>, every \<^verbatim>\<open>error\<close> line whose message is of
  the quota class, written in attempt \<open>n\<close>, is directly followed by the line
  \<^verbatim>\<open>quota_backoff\<close> of the same label and attempt with
  \<open>wait_seconds = q * 1.5 ^ (n - 1)\<close>, and then by the sleep of that many seconds.
  \<open>transient_backoffs_ok b tr\<close>: every \<^verbatim>\<open>error\<close> line whose message is of the transient
  class and not of the quota class is directly followed by the sleep of
  \<open>b * 2 ^ (n - 1)\<close> seconds, with no log line between.
\<close>

fun quota_backoffs_ok :: "rat \<Rightarrow> effect list \<Rightarrow> bool" where
  "quota_backoffs_ok q [] = True"
| "quota_backoffs_ok q (Log (Error run_label n d msg) # tr) =
     ((if quota_class msg
       then take 2 tr = [Log (Quota_backoff run_label n (q * (3 / 2) ^ nat (n - 1))),
                         Sleep (q * (3 / 2) ^ nat (n - 1))]
       else True)
      \<and> quota_backoffs_ok q tr)"
| "quota_backoffs_ok q (x # tr) = quota_backoffs_ok q tr"

fun transient_backoffs_ok :: "rat \<Rightarrow> effect list \<Rightarrow> bool" where
  "transient_backoffs_ok b [] = True"
| "transient_backoffs_ok b (Log (Error run_label n d msg) # tr) =
     ((if \<not> quota_class msg \<and> transient_class msg
       then take 1 tr = [Sleep (b * 2 ^ nat (n - 1))]
       else True)
      \<and> transient_backoffs_ok b tr)"
| "transient_backoffs_ok b (x # tr) = transient_backoffs_ok b tr"


text \<open>The semaphore operations of a trace, and the number of calls of the runner.\<close>

definition sem_ops :: "effect list \<Rightarrow> effect list" where
  "sem_ops tr = filter (\<lambda>x. x = Acquire \<or> x = Release) tr"

definition calls :: "effect list \<Rightarrow> nat" where
  "calls tr = length (filter (\<lambda>x. case x of Call_runner p \<Rightarrow> True | _ \<Rightarrow> False) tr)"

text \<open>The \<^verbatim>\<open>finished_observe_run\<close> lines of a trace.\<close>

definition finished_log :: "effect list \<Rightarrow> log_entry list" where
  "finished_log tr =
     filter (\<lambda>x. case x of Finished_observe_run l d n \<Rightarrow> True | _ \<Rightarrow> False) (log_of tr)"



text \<open>Concrete worlds and environments, for the examples.\<close>

definition world0 :: world where
  "world0 = \<lparr>sessions = Map.empty, metrics_file = None, sem_value = 2, trace = []\<rparr>"

definition quiet_env :: "(int \<Rightarrow> call_outcome) \<Rightarrow> env" where
  "quiet_env runner =
     \<lparr>run_debug = runner, now_ts = (\<lambda>p. 0), gate_ops = (\<lambda>n. []), call_ops = (\<lambda>n. []),
      sleep_ops = (\<lambda>n. []), sem_freed = 0\<rparr>"

definition quota_twice :: "int \<Rightarrow> call_outcome" where
  "quota_twice n = (if n < 3 then Raises ''Quota exceeded'' else Returns ''ok'')"

definition internal_twice :: "int \<Rightarrow> call_outcome" where
  "internal_twice n = (if n < 3 then Raises ''Internal error'' else Returns ''ok'')"

definition paused_world :: world where
  "paused_world =
     world0\<lparr>sessions := [''s1'' \<mapsto> \<lparr>paused = True, pause_event = False, cancel_flag = False\<rparr>]\<rparr>"

definition cancelling_env :: env where
  "cancelling_env = (quiet_env (\<lambda>n. Returns ''ok''))\<lparr>gate_ops := (\<lambda>n. [Cancel ''s1''])\<rparr>"



text \<open>
  The aggregation pass: the text it inspects, the two groups of signatures it looks for,
  the two evaluation records it writes, and the delays slept in a trace.
\<close>

definition summary_of :: "run_result \<Rightarrow> string" where
  "summary_of result = lower (take 2000 (py_str result))"

definition quota_text :: "string \<Rightarrow> bool" where
  "quota_text t = (py_in ''resource_exhausted'' t \<or> py_in ''quota'' t \<or> py_in ''429'' t)"

definition overloaded_text :: "string \<Rightarrow> bool" where
  "overloaded_text t = (py_in ''unavailable'' t \<or> py_in ''503'' t)"

definition full_evaluation :: "run_result \<Rightarrow> evaluation" where
  "full_evaluation result = \<lparr>score = 9, issues = [], summary = take 1000 (py_str result)\<rparr>"

definition deferred_evaluation :: "run_result \<Rightarrow> evaluation" where
  "deferred_evaluation result =
     \<lparr>score = 5, issues = [''Evaluation deferred due to quota exhaustion''],
      summary = take 1000 (py_str result)\<rparr>"

fun sleeps_of :: "effect list \<Rightarrow> rat list" where
  "sleeps_of [] = []"
| "sleeps_of (Sleep d # tr) = d # sleeps_of tr"
| "sleeps_of (x # tr) = sleeps_of tr"

definition two_results :: "(string \<times> run_result) list" where
  "two_results =
     [(''a.xhtml'', Runner_result ''HTTP 429 Too Many Requests''),
      (''b.xhtml'', Runner_result ''done'')]"

text \<open>
  One result stored by a task still running, during the first sleep of the pass for
  \<^verbatim>\<open>a.xhtml\<close>.
\<close>

definition one_late_result :: "string \<Rightarrow> int \<Rightarrow> nat" where
  "one_late_result p k = (if p = ''a.xhtml'' \<and> k = 1 then 1 else 0)"

text \<open>
  \<open>plain s\<close>: \<open>s\<close> has no control character, no single quote and no backslash, so that
  \<^verbatim>\<open>repr\<close> prints it between single quotes as it is. \<open>signature_free t\<close>: \<open>t\<close> contains
  none of the five signatures of the aggregation pass.
\<close>

definition plain :: "string \<Rightarrow> bool" where
  "plain s =
     list_all (\<lambda>c. 32 \<le> (of_char c :: nat) \<and> (of_char c :: nat) \<noteq> 127
                   \<and> c \<noteq> CHR 0x27 \<and> c \<noteq> CHR 0x5C) s"

definition signature_free :: "string \<Rightarrow> bool" where
  "signature_free t = (\<not> quota_text t \<and> \<not> overloaded_text t)"

chapter \<open>Properties\<close>

section \<open>Payload compaction\<close>

lemma compact_context_fixed: "fits 50 0 v m \<Longrightarrow> compact_context v m = v"
proof (induction v m rule: compact_context.induct)
  case (1 s max_chars)
  then show ?case by simp
next
  case (2 kvs max_chars)
  have "map (\<lambda>(k, v). (k, compact_context v
          (if endswith (lower k) ''content'' then max_chars div 4 else max_chars))) kvs
        = map (\<lambda>x. x) kvs"
  proof (rule map_cong[OF refl])
    fix x assume x: "x \<in> set kvs"
    obtain k v where kv: "x = (k, v)" by (cases x)
    from 2(2) x kv
    have "fits 50 0 v (if endswith (lower k) ''content'' then max_chars div 4 else max_chars)"
      by (auto simp: list_all_iff)
    with 2(1)[OF x kv[symmetric]] kv
    show "(case x of (k, v) \<Rightarrow> (k, compact_context v
            (if endswith (lower k) ''content'' then max_chars div 4 else max_chars))) = x"
      by simp
  qed
  then show ?case by simp
next
  case (3 xs max_chars)
  then have len: "length xs \<le> 50" and all: "\<forall>x\<in>set xs. fits 50 0 x max_chars"
    by (auto simp: list_all_iff)
  have "map (\<lambda>x. compact_context x max_chars) xs = map (\<lambda>x. x) xs"
    by (rule map_cong[OF refl]) (use 3(1) len all in auto)
  with len show ?case by simp
qed simp_all

lemma compact_context_kind: "same_kind v (compact_context v m)"
  by (cases v) (auto simp: Let_def comp_def case_prod_unfold)

lemma compact_context_bounded: "0 \<le> m \<Longrightarrow> fits 51 14 (compact_context v m) m"
proof (induction v m rule: compact_context.induct)
  case (1 s max_chars)
  then show ?case by (auto simp: slice_to_def)
next
  case (2 kvs max_chars)
  have "0 \<le> max_chars div 4" using 2(2) by simp
  with 2 show ?case
    by (auto simp: list_all_iff)
next
  case (3 xs max_chars)
  then show ?case
    by (auto simp: list_all_iff Let_def slice_to_def dest: in_set_takeD)
qed simp_all

text \<open>
  C9. Under a budget \<open>m \<ge> 0\<close>, \<^verbatim>\<open>compact_context\<close>
  \<^item> keeps a string of at most \<open>m\<close> characters, and cuts a longer one to its first \<open>m\<close>
    characters followed by \<^verbatim>\<open>...[truncated]\<close>;
  \<^item> compacts the elements of a list of at most 50 elements, and of a longer list the
    first 50, followed by one more element, the compacted marker
    \<^verbatim>\<open>...[truncated items]\<close> (the marker itself when \<open>m \<ge> 20\<close>);
  \<^item> compacts a mapping field by field, keys kept, under the budget \<open>m div 4\<close> for a key
    whose lower-case form ends in \<^verbatim>\<open>content\<close> and under \<open>m\<close> for the others;
  \<^item> gives a value of the same kind and leaves an integer, a boolean and \<^verbatim>\<open>None\<close> as
    they are;
  \<^item> changes nothing in a value whose strings and lists are fits their bounds;
  \<^item> gives a value whose strings are at most 14 characters (the length of the mark)
    longer than their budget and whose lists have at most 51 elements.
\<close>

theorem compact_context_compacts:
  assumes "0 \<le> m"
  shows "(int (length s) \<le> m \<longrightarrow> compact_context (PStr s) m = PStr s)
    \<and> (m < int (length s) \<longrightarrow>
         compact_context (PStr s) m = PStr (take (nat m) s @ ''...[truncated]''))
    \<and> (length xs \<le> 50 \<longrightarrow>
         compact_context (PList xs) m = PList (map (\<lambda>x. compact_context x m) xs))
    \<and> (50 < length xs \<longrightarrow>
         compact_context (PList xs) m =
           PList (map (\<lambda>x. compact_context x m) (take 50 xs)
                  @ [compact_context (PStr ''...[truncated items]'') m]))
    \<and> (20 \<le> m \<longrightarrow>
         compact_context (PStr ''...[truncated items]'') m = PStr ''...[truncated items]'')
    \<and> compact_context (PDict kvs) m =
         PDict (map (\<lambda>(k, v). (k, compact_context v
                  (if endswith (lower k) ''content'' then m div 4 else m))) kvs)
    \<and> same_kind v (compact_context v m)
    \<and> (fits 50 0 v m \<longrightarrow> compact_context v m = v)
    \<and> fits 51 14 (compact_context v m) m"
proof -
  have "m < int (length s) \<longrightarrow>
          compact_context (PStr s) m = PStr (take (nat m) s @ ''...[truncated]'')"
    using assms by (simp add: slice_to_def)
  moreover have "50 < length xs \<longrightarrow>
         compact_context (PList xs) m =
           PList (map (\<lambda>x. compact_context x m) (take 50 xs)
                  @ [compact_context (PStr ''...[truncated items]'') m])"
    by (simp add: Let_def)
  moreover have "length xs \<le> 50 \<longrightarrow>
         compact_context (PList xs) m = PList (map (\<lambda>x. compact_context x m) xs)"
    by (simp add: Let_def)
  moreover have "20 \<le> m \<longrightarrow>
         compact_context (PStr ''...[truncated items]'') m = PStr ''...[truncated items]''"
    by simp
  ultimately show ?thesis
    using assms compact_context_fixed[of v m] compact_context_kind[of v m]
      compact_context_bounded[of m v]
    by simp
qed

theorem compact_context_compacts_witness:
  "(0::int) \<le> 8
   \<and> compact_context (PStr ''abcdefghij'') 8 = PStr ''abcdefgh...[truncated]''
   \<and> compact_context (PList (replicate 51 PNone)) 8 =
       PList (replicate 50 PNone @ [PStr ''...[trun...[truncated]''])
   \<and> compact_context
       (PDict [(''fileContent'', PStr ''abcdefghij''), (''n'', PInt 3)]) 8 =
       PDict [(''fileContent'', PStr ''ab...[truncated]''), (''n'', PInt 3)]
   \<and> fits 50 0 (PList [PStr ''abc'', PNone]) 8
   \<and> compact_context (PList [PStr ''abc'', PNone]) 8 = PList [PStr ''abc'', PNone]"
  using compact_context_compacts[of 8 "''abcdefghij''" "replicate 51 PNone"
      "[(''fileContent'', PStr ''abcdefghij''), (''n'', PInt 3)]" "PList [PStr ''abc'', PNone]"]
  by (simp add: lower_def lower_char_def endswith_def slice_to_def)

section \<open>The retry loop, one case at a time\<close>

text \<open>
  One equation for each way through an iteration of the loop, then the induction
  principle they give, and the traces of the loop as words of the grammar.
\<close>

lemma retry_loop_exhausted:
  "\<not> attempt < max_retries cfg \<Longrightarrow>
   retry_loop cfg e payload run_label sid attempt last_exc w =
     (Returned (Error_result (''Max retries exceeded: '' @ str_exc last_exc)), attempt,
      write_log (Max_retries_exceeded run_label (str_exc last_exc)) w)"
  by (subst retry_loop.simps) simp

lemma retry_loop_blocked:
  "attempt < max_retries cfg \<Longrightarrow> wait_gate e sid (attempt + 1) w = None \<Longrightarrow>
   retry_loop cfg e payload run_label sid attempt last_exc w = (Blocked, attempt + 1, w)"
  by (subst retry_loop.simps) (simp add: Let_def)

lemma retry_loop_cancelled:
  "attempt < max_retries cfg \<Longrightarrow> wait_gate e sid (attempt + 1) w = Some w1 \<Longrightarrow>
   is_cancelled sid (sessions w1) \<Longrightarrow>
   retry_loop cfg e payload run_label sid attempt last_exc w =
     (Returned (Error_result ''CANCELLED''), attempt + 1,
      write_log (Cancelled run_label (attempt + 1)) w1)"
  by (subst retry_loop.simps) (simp add: Let_def)

lemma retry_loop_success:
  "attempt < max_retries cfg \<Longrightarrow> wait_gate e sid (attempt + 1) w = Some w1 \<Longrightarrow>
   \<not> is_cancelled sid (sessions w1) \<Longrightarrow> run_debug e (attempt + 1) = Returns result \<Longrightarrow>
   retry_loop cfg e payload run_label sid attempt last_exc w =
     (Returned (Runner_result result), attempt + 1,
      count_successful_run
        (write_log (Success run_label (attempt + 1)
            (now_ts e (Attempt_end (attempt + 1)) - now_ts e (Attempt_start (attempt + 1))))
          (begin_attempt e payload run_label (attempt + 1) w1)))"
  by (subst retry_loop.simps) (simp add: Let_def begin_attempt_def)

lemma retry_loop_aborted:
  "attempt < max_retries cfg \<Longrightarrow> wait_gate e sid (attempt + 1) w = Some w1 \<Longrightarrow>
   \<not> is_cancelled sid (sessions w1) \<Longrightarrow> run_debug e (attempt + 1) = Aborts \<Longrightarrow>
   retry_loop cfg e payload run_label sid attempt last_exc w =
     (Raised, attempt + 1, begin_attempt e payload run_label (attempt + 1) w1)"
  by (subst retry_loop.simps) (simp add: Let_def begin_attempt_def)

lemma retry_loop_quota:
  "attempt < max_retries cfg \<Longrightarrow> wait_gate e sid (attempt + 1) w = Some w1 \<Longrightarrow>
   \<not> is_cancelled sid (sessions w1) \<Longrightarrow> run_debug e (attempt + 1) = Raises msg \<Longrightarrow>
   quota_class msg \<Longrightarrow>
   retry_loop cfg e payload run_label sid attempt last_exc w =
     retry_loop cfg e payload run_label sid (attempt + 1) (Some msg)
       (sleep (quota_backoff_initial cfg * (3 / 2) ^ nat attempt) (sleep_ops e (attempt + 1))
         (write_log (Quota_backoff run_label (attempt + 1)
              (quota_backoff_initial cfg * (3 / 2) ^ nat attempt))
           (write_log (Error run_label (attempt + 1)
               (now_ts e (Attempt_end (attempt + 1)) - now_ts e (Attempt_start (attempt + 1))) msg)
             (begin_attempt e payload run_label (attempt + 1) w1))))"
  by (subst retry_loop.simps) (simp add: Let_def begin_attempt_def quota_class_def)

lemma retry_loop_transient:
  "attempt < max_retries cfg \<Longrightarrow> wait_gate e sid (attempt + 1) w = Some w1 \<Longrightarrow>
   \<not> is_cancelled sid (sessions w1) \<Longrightarrow> run_debug e (attempt + 1) = Raises msg \<Longrightarrow>
   \<not> quota_class msg \<Longrightarrow> transient_class msg \<Longrightarrow>
   retry_loop cfg e payload run_label sid attempt last_exc w =
     retry_loop cfg e payload run_label sid (attempt + 1) (Some msg)
       (sleep (base_retry_delay cfg * 2 ^ nat attempt) (sleep_ops e (attempt + 1))
           (write_log (Error run_label (attempt + 1)
               (now_ts e (Attempt_end (attempt + 1)) - now_ts e (Attempt_start (attempt + 1))) msg)
             (begin_attempt e payload run_label (attempt + 1) w1)))"
  by (subst retry_loop.simps) (simp add: Let_def begin_attempt_def quota_class_def transient_class_def)

lemma retry_loop_fatal:
  "attempt < max_retries cfg \<Longrightarrow> wait_gate e sid (attempt + 1) w = Some w1 \<Longrightarrow>
   \<not> is_cancelled sid (sessions w1) \<Longrightarrow> run_debug e (attempt + 1) = Raises msg \<Longrightarrow>
   \<not> quota_class msg \<Longrightarrow> \<not> transient_class msg \<Longrightarrow>
   retry_loop cfg e payload run_label sid attempt last_exc w =
     (Returned (Error_result msg), attempt + 1,
      write_log (Non_retriable run_label msg)
        (write_log (Error run_label (attempt + 1)
               (now_ts e (Attempt_end (attempt + 1)) - now_ts e (Attempt_start (attempt + 1))) msg)
             (begin_attempt e payload run_label (attempt + 1) w1)))"
  by (subst retry_loop.simps) (simp add: Let_def begin_attempt_def quota_class_def transient_class_def)

lemma retry_loop_induct:
  fixes P :: "int \<Rightarrow> string option \<Rightarrow> world \<Rightarrow> run_result outcome \<times> int \<times> world \<Rightarrow> bool"
  assumes exhausted: "\<And>attempt last_exc w. \<not> attempt < max_retries cfg \<Longrightarrow>
      P attempt last_exc w
        (Returned (Error_result (''Max retries exceeded: '' @ str_exc last_exc)), attempt,
         write_log (Max_retries_exceeded run_label (str_exc last_exc)) w)"
    and blocked: "\<And>attempt last_exc w. attempt < max_retries cfg \<Longrightarrow>
      wait_gate e sid (attempt + 1) w = None \<Longrightarrow>
      P attempt last_exc w (Blocked, attempt + 1, w)"
    and cancelled: "\<And>attempt last_exc w w1. attempt < max_retries cfg \<Longrightarrow>
      wait_gate e sid (attempt + 1) w = Some w1 \<Longrightarrow> is_cancelled sid (sessions w1) \<Longrightarrow>
      P attempt last_exc w
        (Returned (Error_result ''CANCELLED''), attempt + 1,
         write_log (Cancelled run_label (attempt + 1)) w1)"
    and success: "\<And>attempt last_exc w w1 result. attempt < max_retries cfg \<Longrightarrow>
      wait_gate e sid (attempt + 1) w = Some w1 \<Longrightarrow> \<not> is_cancelled sid (sessions w1) \<Longrightarrow>
      run_debug e (attempt + 1) = Returns result \<Longrightarrow>
      P attempt last_exc w
        (Returned (Runner_result result), attempt + 1,
         count_successful_run
           (write_log (Success run_label (attempt + 1)
               (now_ts e (Attempt_end (attempt + 1)) - now_ts e (Attempt_start (attempt + 1))))
             (begin_attempt e payload run_label (attempt + 1) w1)))"
    and aborted: "\<And>attempt last_exc w w1. attempt < max_retries cfg \<Longrightarrow>
      wait_gate e sid (attempt + 1) w = Some w1 \<Longrightarrow> \<not> is_cancelled sid (sessions w1) \<Longrightarrow>
      run_debug e (attempt + 1) = Aborts \<Longrightarrow>
      P attempt last_exc w (Raised, attempt + 1, begin_attempt e payload run_label (attempt + 1) w1)"
    and quota: "\<And>attempt last_exc w w1 msg w2. attempt < max_retries cfg \<Longrightarrow>
      wait_gate e sid (attempt + 1) w = Some w1 \<Longrightarrow> \<not> is_cancelled sid (sessions w1) \<Longrightarrow>
      run_debug e (attempt + 1) = Raises msg \<Longrightarrow> quota_class msg \<Longrightarrow>
      w2 = sleep (quota_backoff_initial cfg * (3 / 2) ^ nat attempt) (sleep_ops e (attempt + 1))
         (write_log (Quota_backoff run_label (attempt + 1)
              (quota_backoff_initial cfg * (3 / 2) ^ nat attempt))
           (write_log (Error run_label (attempt + 1)
               (now_ts e (Attempt_end (attempt + 1)) - now_ts e (Attempt_start (attempt + 1))) msg)
             (begin_attempt e payload run_label (attempt + 1) w1))) \<Longrightarrow>
      P (attempt + 1) (Some msg) w2
        (retry_loop cfg e payload run_label sid (attempt + 1) (Some msg) w2) \<Longrightarrow>
      P attempt last_exc w (retry_loop cfg e payload run_label sid (attempt + 1) (Some msg) w2)"
    and transient: "\<And>attempt last_exc w w1 msg w2. attempt < max_retries cfg \<Longrightarrow>
      wait_gate e sid (attempt + 1) w = Some w1 \<Longrightarrow> \<not> is_cancelled sid (sessions w1) \<Longrightarrow>
      run_debug e (attempt + 1) = Raises msg \<Longrightarrow> \<not> quota_class msg \<Longrightarrow>
      transient_class msg \<Longrightarrow>
      w2 = sleep (base_retry_delay cfg * 2 ^ nat attempt) (sleep_ops e (attempt + 1))
           (write_log (Error run_label (attempt + 1)
               (now_ts e (Attempt_end (attempt + 1)) - now_ts e (Attempt_start (attempt + 1))) msg)
             (begin_attempt e payload run_label (attempt + 1) w1)) \<Longrightarrow>
      P (attempt + 1) (Some msg) w2
        (retry_loop cfg e payload run_label sid (attempt + 1) (Some msg) w2) \<Longrightarrow>
      P attempt last_exc w (retry_loop cfg e payload run_label sid (attempt + 1) (Some msg) w2)"
    and fatal: "\<And>attempt last_exc w w1 msg. attempt < max_retries cfg \<Longrightarrow>
      wait_gate e sid (attempt + 1) w = Some w1 \<Longrightarrow> \<not> is_cancelled sid (sessions w1) \<Longrightarrow>
      run_debug e (attempt + 1) = Raises msg \<Longrightarrow> \<not> quota_class msg \<Longrightarrow>
      \<not> transient_class msg \<Longrightarrow>
      P attempt last_exc w
        (Returned (Error_result msg), attempt + 1,
         write_log (Non_retriable run_label msg)
           (write_log (Error run_label (attempt + 1)
               (now_ts e (Attempt_end (attempt + 1)) - now_ts e (Attempt_start (attempt + 1))) msg)
             (begin_attempt e payload run_label (attempt + 1) w1)))"
  shows "P attempt last_exc w (retry_loop cfg e payload run_label sid attempt last_exc w)"
proof (induction "nat (max_retries cfg - attempt)" arbitrary: attempt last_exc w rule: less_induct)
  case less
  show ?case
  proof (cases "attempt < max_retries cfg")
    case False
    then show ?thesis
      using exhausted[of attempt last_exc w] by (simp add: retry_loop_exhausted)
  next
    case lt: True
    show ?thesis
    proof (cases "wait_gate e sid (attempt + 1) w")
      case None
      then show ?thesis
        using blocked[OF lt, of w last_exc] by (simp add: retry_loop_blocked lt)
    next
      case (Some w1)
      show ?thesis
      proof (cases "is_cancelled sid (sessions w1)")
        case True
        then show ?thesis
          using cancelled[OF lt Some, of last_exc] by (simp add: retry_loop_cancelled[OF lt Some])
      next
        case nc: False
        show ?thesis
        proof (cases "run_debug e (attempt + 1)")
          case (Returns result)
          then show ?thesis
            using success[OF lt Some nc, of result last_exc]
            by (simp add: retry_loop_success[OF lt Some nc])
        next
          case Aborts
          then show ?thesis
            using aborted[OF lt Some nc, of last_exc]
            by (simp add: retry_loop_aborted[OF lt Some nc])
        next
          case (Raises msg)
          have smaller: "nat (max_retries cfg - (attempt + 1)) < nat (max_retries cfg - attempt)"
            using lt by simp
          show ?thesis
          proof (cases "quota_class msg")
            case True
            show ?thesis
              using quota[OF lt Some nc Raises True refl, of last_exc] less[OF smaller]
              by (simp add: retry_loop_quota[OF lt Some nc Raises True])
          next
            case nq: False
            show ?thesis
            proof (cases "transient_class msg")
              case True
              show ?thesis
                using transient[OF lt Some nc Raises nq True refl, of last_exc] less[OF smaller]
                by (simp add: retry_loop_transient[OF lt Some nc Raises nq True])
            next
              case False
              show ?thesis
                using fatal[OF lt Some nc Raises nq False, of last_exc]
                by (simp add: retry_loop_fatal[OF lt Some nc Raises nq False])
            qed
          qed
        qed
      qed
    qed
  qed
qed



lemma trace_emit: "trace (emit x w) = trace w @ [x]"
  by (simp add: emit_def)

lemma trace_write_log: "trace (write_log entry w) = trace w @ [Log entry]"
  by (simp add: write_log_def emit_def)

lemma trace_others: "trace (others ops w) = trace w"
  by (simp add: others_def)

lemma trace_sleep: "trace (sleep d ops w) = trace w @ [Sleep d]"
  by (simp add: sleep_def others_def emit_def)

lemma trace_count_successful_run: "trace (count_successful_run w) = trace w"
  by (simp add: count_successful_run_def update_metric_def Let_def)

lemma trace_begin_attempt:
  "trace (begin_attempt e payload run_label n w) =
     trace w @ [Log (Start_attempt run_label n), Call_runner payload]"
  by (simp add: begin_attempt_def others_def emit_def write_log_def)

lemma trace_wait_gate: "wait_gate e sid n w = Some w1 \<Longrightarrow> trace w1 = trace w"
  by (auto simp: wait_gate_def others_def split: option.splits if_splits)

lemmas trace_simps = trace_emit trace_write_log trace_others trace_sleep
  trace_count_successful_run trace_begin_attempt

lemma sem_value_wait_gate: "wait_gate e sid n w = Some w1 \<Longrightarrow> sem_value w1 = sem_value w"
  by (auto simp: wait_gate_def others_def split: option.splits if_splits)

lemma sem_value_simps:
  "sem_value (emit x w) = sem_value w"
  "sem_value (write_log entry w) = sem_value w"
  "sem_value (others ops w) = sem_value w"
  "sem_value (sleep d ops w) = sem_value w"
  "sem_value (count_successful_run w) = sem_value w"
  "sem_value (begin_attempt e payload run_label n w) = sem_value w"
  by (simp_all add: emit_def write_log_def others_def sleep_def count_successful_run_def
        update_metric_def begin_attempt_def Let_def)



lemma retry_loop_trace:
  "retry_loop cfg e payload run_label sid attempt last_exc w = (out, n, w') \<Longrightarrow>
     \<exists>new. trace w' = trace w @ new \<and> loop_trace cfg payload run_label attempt new out n
       \<and> sem_value w' = sem_value w"
proof -
  have "\<forall>out n w'. retry_loop cfg e payload run_label sid attempt last_exc w = (out, n, w') \<longrightarrow>
     (\<exists>new. trace w' = trace w @ new \<and> loop_trace cfg payload run_label attempt new out n
        \<and> sem_value w' = sem_value w)"
  proof (rule retry_loop_induct[where P = "\<lambda>attempt last_exc w res.
      \<forall>out n w'. res = (out, n, w') \<longrightarrow>
        (\<exists>new. trace w' = trace w @ new \<and> loop_trace cfg payload run_label attempt new out n
           \<and> sem_value w' = sem_value w)"],
      goal_cases)
    case (1 attempt last_exc w)
    then show ?case
      using loop_trace.exhausted[of attempt cfg payload run_label "str_exc last_exc"]
      by (simp add: trace_simps sem_value_simps)
  next
    case (2 attempt last_exc w)
    then show ?case by (simp add: loop_trace.blocked)
  next
    case (3 attempt last_exc w w1)
    then show ?case
      by (simp add: trace_simps sem_value_simps trace_wait_gate sem_value_wait_gate
            loop_trace.cancelled)
  next
    case (4 attempt last_exc w w1 result)
    then show ?case
      by (simp add: trace_simps sem_value_simps trace_wait_gate sem_value_wait_gate
            loop_trace.success)
  next
    case (5 attempt last_exc w w1)
    then show ?case
      by (simp add: trace_simps sem_value_simps trace_wait_gate sem_value_wait_gate
            loop_trace.aborted)
  next
    case (6 attempt last_exc w w1 msg w2)
    show ?case
    proof (intro allI impI)
      fix out n w'
      assume "retry_loop cfg e payload run_label sid (attempt + 1) (Some msg) w2 = (out, n, w')"
      with 6(7) obtain new where new: "trace w' = trace w2 @ new"
        "loop_trace cfg payload run_label (attempt + 1) new out n" "sem_value w' = sem_value w2"
        by blast
      from loop_trace.quota[OF 6(1) 6(5) new(2)] new(1,3) 6(2,6)
      show "\<exists>new. trace w' = trace w @ new \<and> loop_trace cfg payload run_label attempt new out n
              \<and> sem_value w' = sem_value w"
        by (simp add: trace_simps sem_value_simps trace_wait_gate sem_value_wait_gate)
    qed
  next
    case (7 attempt last_exc w w1 msg w2)
    show ?case
    proof (intro allI impI)
      fix out n w'
      assume "retry_loop cfg e payload run_label sid (attempt + 1) (Some msg) w2 = (out, n, w')"
      with 7(8) obtain new where new: "trace w' = trace w2 @ new"
        "loop_trace cfg payload run_label (attempt + 1) new out n" "sem_value w' = sem_value w2"
        by blast
      from loop_trace.transient[OF 7(1) 7(5) 7(6) new(2)] new(1,3) 7(2,7)
      show "\<exists>new. trace w' = trace w @ new \<and> loop_trace cfg payload run_label attempt new out n
              \<and> sem_value w' = sem_value w"
        by (simp add: trace_simps sem_value_simps trace_wait_gate sem_value_wait_gate)
    qed
  next
    case (8 attempt last_exc w w1 msg)
    then show ?case
      by (simp add: trace_simps sem_value_simps trace_wait_gate sem_value_wait_gate
            loop_trace.fatal)
  qed
  then show "retry_loop cfg e payload run_label sid attempt last_exc w = (out, n, w') \<Longrightarrow>
     \<exists>new. trace w' = trace w @ new \<and> loop_trace cfg payload run_label attempt new out n
       \<and> sem_value w' = sem_value w"
    by blast
qed

lemma observe_run_trace:
  assumes "observe_run cfg e payload run_label session_id semaphore w = (out, w')"
  shows "(semaphore \<and> acquire e w = None \<and> out = Blocked \<and> w' = w)
     \<or> (\<exists>body n. loop_trace cfg (compact_context payload 4000) run_label 0 body out n
          \<and> (semaphore \<longrightarrow> acquire e w \<noteq> None)
          \<and> trace w' = trace w @ (if semaphore then [Acquire] else []) @ body
               @ (if out = Blocked then []
                  else (if semaphore then [Release] else [])
                       @ [Log (Finished_observe_run run_label
                                 (now_ts e Finish - now_ts e Start_all) n)])
          \<and> sem_value w' =
               (if semaphore \<and> out = Blocked
                then (if 0 < sem_value w then sem_value w - 1 else sem_freed e - 1)
                else if semaphore \<and> sem_value w = 0 then sem_freed e
                else sem_value w))"
proof (cases "semaphore \<and> acquire e w = None")
  case True
  with assms show ?thesis by (simp add: observe_run_def Let_def)
next
  case False
  define w0 where "w0 = (if semaphore then the (acquire e w) else w)"
  have acq: "(if semaphore then acquire e w else Some w) = Some w0"
    using False by (auto simp: w0_def)
  have tr0: "trace w0 = trace w @ (if semaphore then [Acquire] else [])"
    and sv0: "sem_value w0 = (if semaphore then (if 0 < sem_value w then sem_value w - 1 else sem_freed e - 1) else sem_value w)"
    and pos: "semaphore \<Longrightarrow> sem_value w = 0 \<Longrightarrow> 0 < sem_freed e"
    using False by (auto simp: w0_def acquire_def emit_def split: if_splits)
  define sid where "sid = (case session_id of None \<Rightarrow> ''session_default''
                     | Some i \<Rightarrow> if i = [] then ''session_default'' else i)"
  define w1 where "w1 = w0\<lparr>sessions := create_session sid (sessions w0)\<rparr>"
  obtain out1 n w2 where loop:
    "retry_loop cfg e (compact_context payload 4000) run_label sid 0 None w1 = (out1, n, w2)"
    by (cases "retry_loop cfg e (compact_context payload 4000) run_label sid 0 None w1") auto
  from retry_loop_trace[OF loop] obtain body where body:
    "trace w2 = trace w1 @ body"
    "loop_trace cfg (compact_context payload 4000) run_label 0 body out1 n"
    "sem_value w2 = sem_value w1"
    by blast
  have tr1: "trace w1 = trace w0" and sv1: "sem_value w1 = sem_value w0"
    by (simp_all add: w1_def)
  show ?thesis
  proof (cases "out1 = Blocked")
    case True
    with assms acq loop have "out = Blocked" "w' = w2"
      by (simp_all add: observe_run_def Let_def sid_def w1_def)
    with True body tr0 tr1 sv0 sv1 False show ?thesis
      by (intro disjI2 exI[of _ body] exI[of _ n]) auto
  next
    case nb: False
    with assms acq loop have out: "out = out1"
      and w': "w' = write_log (Finished_observe_run run_label (now_ts e Finish - now_ts e Start_all) n)
                 (if semaphore then release w2 else w2)"
      by (simp_all add: observe_run_def Let_def sid_def w1_def)
    have "trace w' = trace w2 @ (if semaphore then [Release] else [])
              @ [Log (Finished_observe_run run_label (now_ts e Finish - now_ts e Start_all) n)]"
      and "sem_value w' = (if semaphore then sem_value w2 + 1 else sem_value w2)"
      by (simp_all add: w' write_log_def emit_def release_def)
    with nb out body tr0 tr1 sv0 sv1 False pos show ?thesis
      by (intro disjI2 exI[of _ body] exI[of _ n]) auto
  qed
qed



lemma loop_trace_quota_backoffs:
  "loop_trace cfg payload run_label attempt new out n \<Longrightarrow>
   quota_backoffs_ok (quota_backoff_initial cfg) new"
  by (induction rule: loop_trace.induct) simp_all

lemma loop_trace_transient_backoffs:
  "loop_trace cfg payload run_label attempt new out n \<Longrightarrow>
   transient_backoffs_ok (base_retry_delay cfg) new"
  by (induction rule: loop_trace.induct) simp_all

lemma loop_trace_sem_ops:
  "loop_trace cfg payload run_label attempt new out n \<Longrightarrow> sem_ops new = []"
  by (induction rule: loop_trace.induct) (simp_all add: sem_ops_def)

lemma loop_trace_attempts:
  "loop_trace cfg payload run_label attempt new out n \<Longrightarrow>
   attempt \<le> n \<and> n \<le> max attempt (max_retries cfg)
   \<and> int (calls new) \<le> n - attempt \<and> n - attempt \<le> int (calls new) + 1"
  by (induction rule: loop_trace.induct) (auto simp: calls_def)







section \<open>The executor: quota backoff\<close>

lemmas run_defs = observe_run_def default_config_def quiet_env_def world0_def acquire_def
  release_def emit_def write_log_def others_def sleep_def create_session_def wait_gate_def
  get_event_def is_cancelled_def count_successful_run_def update_metric_def load_metrics_def
  lower_def lower_char_def str_exc_def Let_def

lemma take_all_length: "take n tr = xs \<Longrightarrow> length xs = n \<Longrightarrow> n \<le> length tr"
proof -
  assume "take n tr = xs" "length xs = n"
  then have "min (length tr) n = n" by (metis length_take)
  then show "n \<le> length tr" by simp
qed

lemma quota_backoffs_ok_append:
  "quota_backoffs_ok q xs \<Longrightarrow> quota_backoffs_ok q ys \<Longrightarrow> quota_backoffs_ok q (xs @ ys)"
proof (induction q xs rule: quota_backoffs_ok.induct)
  case (2 q run_label n d msg tr)
  have "take 2 (tr @ ys) = take 2 tr" if "take 2 tr = [a, b]" for a b
  proof -
    from that have "2 \<le> length tr"
      using take_all_length[of 2 tr "[a, b]"] by simp
    then show ?thesis by simp
  qed
  with 2 show ?case by (auto split: if_splits)
qed auto

lemma transient_backoffs_ok_append:
  "transient_backoffs_ok b xs \<Longrightarrow> transient_backoffs_ok b ys \<Longrightarrow>
   transient_backoffs_ok b (xs @ ys)"
proof (induction b xs rule: transient_backoffs_ok.induct)
  case (2 b run_label n d msg tr)
  have "take 1 (tr @ ys) = take 1 tr" if "take 1 tr = [a]" for a
  proof -
    from that have "1 \<le> length tr"
      using take_all_length[of 1 tr "[a]"] by simp
    then show ?thesis by simp
  qed
  with 2 show ?case by (auto split: if_splits)
qed auto

text \<open>
  C2. In every call of \<^verbatim>\<open>observe_run\<close>, each failed attempt whose message is of the quota
  class (the lower-case message contains \<^verbatim>\<open>resource_exhausted\<close>, \<^verbatim>\<open>quota\<close>, \<^verbatim>\<open>429\<close>
  or \<^verbatim>\<open>rate-limit\<close>) is followed by the log line \<^verbatim>\<open>quota_backoff\<close> and by a sleep of
  \<open>quota_backoff_initial * 1.5 ^ (attempt - 1)\<close> seconds: this holds of the whole trace of
  the call, and the iteration that meets such a failure goes on with the next one in the
  world where these lines and this sleep were added. For a positive initial delay the
  delay grows strictly with the attempt number.
\<close>

theorem observe_run_quota_backoff:
  assumes "observe_run cfg e payload run_label session_id semaphore w = (out, w')"
  shows "(\<exists>new. trace w' = trace w @ new \<and> quota_backoffs_ok (quota_backoff_initial cfg) new)
    \<and> (attempt < max_retries cfg \<and> wait_gate e sid (attempt + 1) w0 = Some w1
        \<and> \<not> is_cancelled sid (sessions w1) \<and> run_debug e (attempt + 1) = Raises msg
        \<and> quota_class msg \<longrightarrow>
        retry_loop cfg e p run_label sid attempt last_exc w0 =
          retry_loop cfg e p run_label sid (attempt + 1) (Some msg)
            (sleep (quota_backoff_initial cfg * (3 / 2) ^ nat attempt) (sleep_ops e (attempt + 1))
              (write_log (Quota_backoff run_label (attempt + 1)
                   (quota_backoff_initial cfg * (3 / 2) ^ nat attempt))
                (write_log (Error run_label (attempt + 1)
                    (now_ts e (Attempt_end (attempt + 1)) - now_ts e (Attempt_start (attempt + 1)))
                    msg)
                  (begin_attempt e p run_label (attempt + 1) w1)))))
    \<and> (0 < quota_backoff_initial cfg \<longrightarrow>
        (\<forall>n\<ge>1. quota_backoff_initial cfg * (3 / 2) ^ nat (n - 1)
                < quota_backoff_initial cfg * (3 / 2) ^ nat ((n + 1) - 1)))"
proof -
  have "\<exists>new. trace w' = trace w @ new \<and> quota_backoffs_ok (quota_backoff_initial cfg) new"
  proof -
    from observe_run_trace[OF assms]
    consider "w' = w"
      | body n where "loop_trace cfg (compact_context payload 4000) run_label 0 body out n"
        "trace w' = trace w @ (if semaphore then [Acquire] else []) @ body
               @ (if out = Blocked then []
                  else (if semaphore then [Release] else [])
                       @ [Log (Finished_observe_run run_label
                                 (now_ts e Finish - now_ts e Start_all) n)])"
      by blast
    then show ?thesis
    proof cases
      case 1
      then show ?thesis by simp
    next
      case 2
      from loop_trace_quota_backoffs[OF 2(1)]
      have "quota_backoffs_ok (quota_backoff_initial cfg)
              ((if semaphore then [Acquire] else []) @ body
               @ (if out = Blocked then []
                  else (if semaphore then [Release] else [])
                       @ [Log (Finished_observe_run run_label
                                 (now_ts e Finish - now_ts e Start_all) n)]))"
        by (auto intro!: quota_backoffs_ok_append)
      with 2(2) show ?thesis by metis
    qed
  qed
  moreover have "0 < quota_backoff_initial cfg \<longrightarrow>
        (\<forall>n\<ge>1. quota_backoff_initial cfg * (3 / 2) ^ nat (n - 1)
                < quota_backoff_initial cfg * (3 / 2) ^ nat ((n + 1) - 1))"
  proof (intro impI allI)
    fix n :: int
    assume q: "0 < quota_backoff_initial cfg" and n: "1 \<le> n"
    have "nat ((n + 1) - 1) = Suc (nat (n - 1))" using n by simp
    then show "quota_backoff_initial cfg * (3 / 2) ^ nat (n - 1)
                < quota_backoff_initial cfg * (3 / 2) ^ nat ((n + 1) - 1)"
      using q by simp
  qed
  ultimately show ?thesis
    using retry_loop_quota[of attempt cfg e sid w0 w1 msg p run_label last_exc] by blast
qed

lemma quota_twice_trace:
  "trace (snd (observe_run default_config (quiet_env quota_twice) (PList [PStr ''a.xhtml''])
     ''Migration:a'' (Some ''s1'') True world0)) =
   [Acquire, Log (Start_attempt ''Migration:a'' 1),
        Call_runner (PList [PStr ''a.xhtml'']),
        Log (Error ''Migration:a'' 1 0 ''Quota exceeded''),
        Log (Quota_backoff ''Migration:a'' 1 30), Sleep 30,
        Log (Start_attempt ''Migration:a'' 2),
        Call_runner (PList [PStr ''a.xhtml'']),
        Log (Error ''Migration:a'' 2 0 ''Quota exceeded''),
        Log (Quota_backoff ''Migration:a'' 2 45), Sleep 45,
        Log (Start_attempt ''Migration:a'' 3),
        Call_runner (PList [PStr ''a.xhtml'']),
        Log (Success ''Migration:a'' 3 0), Release,
        Log (Finished_observe_run ''Migration:a'' 0 3)]"
  by (simp add: run_defs quota_twice_def retry_loop.simps)

theorem observe_run_quota_backoff_witness:
  "quota_class ''Quota exceeded''
   \<and> (0::rat) < quota_backoff_initial default_config
   \<and> quota_backoffs_ok 30
       [Acquire, Log (Start_attempt ''Migration:a'' 1),
        Call_runner (PList [PStr ''a.xhtml'']),
        Log (Error ''Migration:a'' 1 0 ''Quota exceeded''),
        Log (Quota_backoff ''Migration:a'' 1 30), Sleep 30,
        Log (Start_attempt ''Migration:a'' 2),
        Call_runner (PList [PStr ''a.xhtml'']),
        Log (Error ''Migration:a'' 2 0 ''Quota exceeded''),
        Log (Quota_backoff ''Migration:a'' 2 45), Sleep 45,
        Log (Start_attempt ''Migration:a'' 3),
        Call_runner (PList [PStr ''a.xhtml'']),
        Log (Success ''Migration:a'' 3 0), Release,
        Log (Finished_observe_run ''Migration:a'' 0 3)]
   \<and> retry_loop default_config (quiet_env quota_twice) PNone ''Migration:a'' ''s1'' 0 None world0 =
       retry_loop default_config (quiet_env quota_twice) PNone ''Migration:a'' ''s1'' 1
         (Some ''Quota exceeded'')
         (world0\<lparr>trace := [Log (Start_attempt ''Migration:a'' 1), Call_runner PNone,
            Log (Error ''Migration:a'' 1 0 ''Quota exceeded''),
            Log (Quota_backoff ''Migration:a'' 1 30), Sleep 30]\<rparr>)
   \<and> (30::rat) * (3 / 2) ^ nat (1 - 1) < 30 * (3 / 2) ^ nat ((1 + 1) - 1)"
  using observe_run_quota_backoff[of default_config "quiet_env quota_twice"
      "PList [PStr ''a.xhtml'']" "''Migration:a''" "Some ''s1''" True world0
      "fst (observe_run default_config (quiet_env quota_twice) (PList [PStr ''a.xhtml''])
          ''Migration:a'' (Some ''s1'') True world0)"
      "snd (observe_run default_config (quiet_env quota_twice) (PList [PStr ''a.xhtml''])
          ''Migration:a'' (Some ''s1'') True world0)"
      0 "''s1''" world0 world0 "''Quota exceeded''" PNone None]
    quota_twice_trace
  by (simp add: quota_class_def begin_attempt_def run_defs quota_twice_def)

section \<open>The executor: transient backoff\<close>

lemma internal_twice_trace:
  "trace (snd (observe_run default_config (quiet_env internal_twice) (PList [PStr ''a.xhtml''])
     ''Migration:a'' (Some ''s1'') False world0)) =
   [Log (Start_attempt ''Migration:a'' 1),
        Call_runner (PList [PStr ''a.xhtml'']),
        Log (Error ''Migration:a'' 1 0 ''Internal error''), Sleep 5,
        Log (Start_attempt ''Migration:a'' 2),
        Call_runner (PList [PStr ''a.xhtml'']),
        Log (Error ''Migration:a'' 2 0 ''Internal error''), Sleep 10,
        Log (Start_attempt ''Migration:a'' 3),
        Call_runner (PList [PStr ''a.xhtml'']),
        Log (Success ''Migration:a'' 3 0),
        Log (Finished_observe_run ''Migration:a'' 0 3)]"
  by (simp add: run_defs internal_twice_def retry_loop.simps)

text \<open>
  C3. In every call of \<^verbatim>\<open>observe_run\<close>, each failed attempt whose message is of the
  transient class (the lower-case message contains \<^verbatim>\<open>unavailable\<close>, \<^verbatim>\<open>timeout\<close> or
  \<^verbatim>\<open>internal\<close>) and not of the quota class is directly followed by a sleep of
  \<open>base_retry_delay * 2 ^ (attempt - 1)\<close> seconds, with no log line between the
  \<^verbatim>\<open>error\<close> line and the sleep. The iteration that meets such a failure goes on with the
  next one in the world where only the \<^verbatim>\<open>error\<close> line and this sleep were added, and
  it does so whatever the initial delay \<open>q\<close> of the quota schedule is.
\<close>

theorem observe_run_transient_backoff:
  assumes "observe_run cfg e payload run_label session_id semaphore w = (out, w')"
  shows "(\<exists>new. trace w' = trace w @ new \<and> transient_backoffs_ok (base_retry_delay cfg) new)
    \<and> (attempt < max_retries cfg \<and> wait_gate e sid (attempt + 1) w0 = Some w1
        \<and> \<not> is_cancelled sid (sessions w1) \<and> run_debug e (attempt + 1) = Raises msg
        \<and> \<not> quota_class msg \<and> transient_class msg \<longrightarrow>
        retry_loop (cfg\<lparr>quota_backoff_initial := q\<rparr>) e p run_label sid attempt last_exc w0 =
          retry_loop (cfg\<lparr>quota_backoff_initial := q\<rparr>) e p run_label sid (attempt + 1) (Some msg)
            (sleep (base_retry_delay cfg * 2 ^ nat attempt) (sleep_ops e (attempt + 1))
                (write_log (Error run_label (attempt + 1)
                    (now_ts e (Attempt_end (attempt + 1)) - now_ts e (Attempt_start (attempt + 1)))
                    msg)
                  (begin_attempt e p run_label (attempt + 1) w1))))"
proof -
  have "\<exists>new. trace w' = trace w @ new \<and> transient_backoffs_ok (base_retry_delay cfg) new"
  proof -
    from observe_run_trace[OF assms]
    consider "w' = w"
      | body n where "loop_trace cfg (compact_context payload 4000) run_label 0 body out n"
        "trace w' = trace w @ (if semaphore then [Acquire] else []) @ body
               @ (if out = Blocked then []
                  else (if semaphore then [Release] else [])
                       @ [Log (Finished_observe_run run_label
                                 (now_ts e Finish - now_ts e Start_all) n)])"
      by blast
    then show ?thesis
    proof cases
      case 1
      then show ?thesis by simp
    next
      case 2
      from loop_trace_transient_backoffs[OF 2(1)]
      have "transient_backoffs_ok (base_retry_delay cfg)
              ((if semaphore then [Acquire] else []) @ body
               @ (if out = Blocked then []
                  else (if semaphore then [Release] else [])
                       @ [Log (Finished_observe_run run_label
                                 (now_ts e Finish - now_ts e Start_all) n)]))"
        by (auto intro!: transient_backoffs_ok_append)
      with 2(2) show ?thesis by metis
    qed
  qed
  then show ?thesis
    using retry_loop_transient[of attempt "cfg\<lparr>quota_backoff_initial := q\<rparr>" e sid w0 w1 msg p
        run_label last_exc]
    by simp
qed

theorem observe_run_transient_backoff_witness:
  "\<not> quota_class ''Internal error'' \<and> transient_class ''Internal error''
   \<and> transient_backoffs_ok 5
       [Log (Start_attempt ''Migration:a'' 1),
        Call_runner (PList [PStr ''a.xhtml'']),
        Log (Error ''Migration:a'' 1 0 ''Internal error''), Sleep 5,
        Log (Start_attempt ''Migration:a'' 2),
        Call_runner (PList [PStr ''a.xhtml'']),
        Log (Error ''Migration:a'' 2 0 ''Internal error''), Sleep 10,
        Log (Start_attempt ''Migration:a'' 3),
        Call_runner (PList [PStr ''a.xhtml'']),
        Log (Success ''Migration:a'' 3 0),
        Log (Finished_observe_run ''Migration:a'' 0 3)]
   \<and> retry_loop (default_config\<lparr>quota_backoff_initial := 1000\<rparr>) (quiet_env internal_twice)
         PNone ''Migration:a'' ''s1'' 0 None world0 =
       retry_loop (default_config\<lparr>quota_backoff_initial := 1000\<rparr>) (quiet_env internal_twice)
         PNone ''Migration:a'' ''s1'' 1 (Some ''Internal error'')
         (world0\<lparr>trace := [Log (Start_attempt ''Migration:a'' 1), Call_runner PNone,
            Log (Error ''Migration:a'' 1 0 ''Internal error''), Sleep 5]\<rparr>)"
  using observe_run_transient_backoff[of default_config "quiet_env internal_twice"
      "PList [PStr ''a.xhtml'']" "''Migration:a''" "Some ''s1''" False world0
      "fst (observe_run default_config (quiet_env internal_twice) (PList [PStr ''a.xhtml''])
          ''Migration:a'' (Some ''s1'') False world0)"
      "snd (observe_run default_config (quiet_env internal_twice) (PList [PStr ''a.xhtml''])
          ''Migration:a'' (Some ''s1'') False world0)"
      0 "''s1''" world0 world0 "''Internal error''" 1000 PNone None]
    internal_twice_trace
  by (simp add: quota_class_def transient_class_def begin_attempt_def run_defs internal_twice_def)

section \<open>The executor: one terminal outcome\<close>

lemma quota_twice_result:
  "fst (observe_run default_config (quiet_env quota_twice) (PList [PStr ''a.xhtml''])
     ''Migration:a'' (Some ''s1'') True world0) = Returned (Runner_result ''ok'')
   \<and> sem_value (snd (observe_run default_config (quiet_env quota_twice) (PList [PStr ''a.xhtml''])
     ''Migration:a'' (Some ''s1'') True world0)) = 2"
  by (simp add: run_defs quota_twice_def retry_loop.simps)



section \<open>The executor: the concurrency limiter\<close>

lemma loop_trace_finished_log:
  "loop_trace cfg payload run_label attempt new out n \<Longrightarrow> finished_log new = []"
  by (induction rule: loop_trace.induct) (simp_all add: finished_log_def)

text \<open>
  C6. A call of \<^verbatim>\<open>observe_run\<close> that was given a semaphore and cannot get a slot does
  nothing. Otherwise it acquires the semaphore once, as its first effect and before the
  loop; the loop itself neither acquires nor releases; and when the call ends, by a
  return (success, exhausted retries, cancellation, fatal error) or by an exception the
  loop lets through, its last two effects are the release and the line
  \<^verbatim>\<open>finished_observe_run\<close>, with the time since the start of the call and the value of
  the attempt counter, which is the number of runner calls or one more. The slot taken
  is given back. A call suspended for ever at the pause gate keeps its slot.
\<close>

theorem observe_run_limiter:
  assumes "observe_run cfg e payload run_label session_id True w = (out, w')"
  shows "(acquire e w = None \<longrightarrow> out = Blocked \<and> w' = w)
    \<and> (\<forall>wa. acquire e w = Some wa \<longrightarrow>
         (\<exists>body n. trace w' = trace w @ [Acquire] @ body
               @ (if out = Blocked then []
                  else [Release, Log (Finished_observe_run run_label
                                        (now_ts e Finish - now_ts e Start_all) n)])
            \<and> sem_ops body = [] \<and> finished_log body = []
            \<and> int (calls body) \<le> n \<and> n \<le> int (calls body) + 1
            \<and> sem_value wa + 1 = (if 0 < sem_value w then sem_value w else sem_freed e)
            \<and> sem_value w' = (if out = Blocked then sem_value wa else sem_value wa + 1)))"
proof (cases "acquire e w")
  case None
  with observe_run_trace[OF assms] show ?thesis by auto
next
  case (Some wa)
  with observe_run_trace[OF assms] obtain body n where
    lt: "loop_trace cfg (compact_context payload 4000) run_label 0 body out n"
    and tr: "trace w' = trace w @ [Acquire] @ body
               @ (if out = Blocked then []
                  else [Release, Log (Finished_observe_run run_label
                                        (now_ts e Finish - now_ts e Start_all) n)])"
    and sv: "sem_value w' =
               (if out = Blocked
                then (if 0 < sem_value w then sem_value w - 1 else sem_freed e - 1)
                else if sem_value w = 0 then sem_freed e
                else sem_value w)"
    by auto
  have wa: "sem_value wa = (if 0 < sem_value w then sem_value w - 1 else sem_freed e - 1)"
    and pos: "sem_value w = 0 \<Longrightarrow> 0 < sem_freed e"
    using Some by (auto simp: acquire_def emit_def split: if_splits)
  from loop_trace_attempts[OF lt] have "int (calls body) \<le> n" "n \<le> int (calls body) + 1"
    by simp_all
  with tr sv wa pos loop_trace_sem_ops[OF lt] loop_trace_finished_log[OF lt] Some
  show ?thesis
    by (intro conjI allI impI; (intro exI[of _ body] exI[of _ n])?) auto
qed

theorem observe_run_limiter_witness:
  "acquire (quiet_env quota_twice) world0 = Some (world0\<lparr>sem_value := 1, trace := [Acquire]\<rparr>)
   \<and> fst (observe_run default_config (quiet_env quota_twice) (PList [PStr ''a.xhtml''])
          ''Migration:a'' (Some ''s1'') True world0) \<noteq> Blocked
   \<and> sem_value (snd (observe_run default_config (quiet_env quota_twice)
          (PList [PStr ''a.xhtml'']) ''Migration:a'' (Some ''s1'') True world0)) = 1 + 1
   \<and> sem_ops (trace (snd (observe_run default_config (quiet_env quota_twice)
          (PList [PStr ''a.xhtml'']) ''Migration:a'' (Some ''s1'') True world0)))
       = [Acquire, Release]
   \<and> finished_log (trace (snd (observe_run default_config (quiet_env quota_twice)
          (PList [PStr ''a.xhtml'']) ''Migration:a'' (Some ''s1'') True world0)))
       = [Finished_observe_run ''Migration:a'' 0 3]"
  using observe_run_limiter[of default_config "quiet_env quota_twice"
      "PList [PStr ''a.xhtml'']" "''Migration:a''" "Some ''s1''" world0
      "fst (observe_run default_config (quiet_env quota_twice) (PList [PStr ''a.xhtml''])
          ''Migration:a'' (Some ''s1'') True world0)"
      "snd (observe_run default_config (quiet_env quota_twice) (PList [PStr ''a.xhtml''])
          ''Migration:a'' (Some ''s1'') True world0)"]
    quota_twice_trace quota_twice_result
  by (simp add: quiet_env_def world0_def acquire_def emit_def sem_ops_def finished_log_def)

section \<open>Cancelling a paused session\<close>

lemma control_step_known: "sid \<in> dom ss \<Longrightarrow> sid \<in> dom (control_step c ss)"
  by (cases c)
     (auto simp: create_session_def pause_def resume_def cancel_def split: option.splits)

lemma control_step_cancelled:
  "is_cancelled sid ss \<Longrightarrow> is_cancelled sid (control_step c ss)"
  by (cases c)
     (auto simp: is_cancelled_def create_session_def pause_def resume_def cancel_def
           split: option.splits if_splits)

lemma fold_control_cancelled:
  "is_cancelled sid ss \<Longrightarrow> is_cancelled sid (fold control_step ops ss)"
  by (induction ops arbitrary: ss) (simp_all add: control_step_cancelled)

lemma cancel_among_controls:
  "Cancel sid \<in> set ops \<Longrightarrow> sid \<in> dom ss \<Longrightarrow> is_cancelled sid (fold control_step ops ss)"
proof (induction ops arbitrary: ss)
  case Nil
  then show ?case by simp
next
  case (Cons c ops)
  show ?case
  proof (cases "c = Cancel sid")
    case True
    with Cons(3) have "is_cancelled sid (control_step c ss)"
      by (auto simp: is_cancelled_def cancel_def)
    then show ?thesis by (simp add: fold_control_cancelled)
  next
    case False
    with Cons(2) have "Cancel sid \<in> set ops" by simp
    with Cons(1)[OF this control_step_known[OF Cons(3)]] show ?thesis by simp
  qed
qed

lemma cancelled_run:
  "observe_run default_config cancelling_env (PList [PStr ''a.xhtml''])
     ''Migration:a'' (Some ''s1'') False paused_world =
   (Returned (Error_result ''CANCELLED''),
    paused_world\<lparr>sessions := [''s1'' \<mapsto> \<lparr>paused = True, pause_event = True, cancel_flag = True\<rparr>],
      trace := [Log (Cancelled ''Migration:a'' 1),
                Log (Finished_observe_run ''Migration:a'' 0 1)]\<rparr>)"
  by (simp add: run_defs cancelling_env_def paused_world_def wakes_def cancel_def
        retry_loop.simps)

text \<open>
  C5. For a known session, \<^verbatim>\<open>cancel\<close> sets the flag and opens the gate, and leaves the
  rest of the session as it is. A task that finds the gate closed before an attempt, and
  during whose wait the session is cancelled, goes on, finds \<^verbatim>\<open>is_cancelled\<close> true,
  logs \<^verbatim>\<open>cancelled\<close> and returns \<^verbatim>\<open>{"error": "CANCELLED"}\<close> without calling the runner.
  With neither \<^verbatim>\<open>cancel\<close> nor \<^verbatim>\<open>resume\<close> during the wait, the task stays suspended.
\<close>

theorem cancel_wakes_blocked_task:
  assumes "sessions w sid = Some s"
  shows "cancel sid (sessions w) = (sessions w)(sid \<mapsto> s\<lparr>cancel_flag := True, pause_event := True\<rparr>)
    \<and> is_cancelled sid (cancel sid (sessions w))
    \<and> get_event sid (cancel sid (sessions w)) = Some True
    \<and> (attempt < max_retries cfg \<and> \<not> pause_event s
        \<and> Cancel sid \<in> set (gate_ops e (attempt + 1)) \<longrightarrow>
          wait_gate e sid (attempt + 1) w = Some (others (gate_ops e (attempt + 1)) w)
        \<and> is_cancelled sid (sessions (others (gate_ops e (attempt + 1)) w))
        \<and> retry_loop cfg e payload run_label sid attempt last_exc w =
            (Returned (Error_result ''CANCELLED''), attempt + 1,
             write_log (Cancelled run_label (attempt + 1)) (others (gate_ops e (attempt + 1)) w))
        \<and> trace (write_log (Cancelled run_label (attempt + 1))
                   (others (gate_ops e (attempt + 1)) w))
            = trace w @ [Log (Cancelled run_label (attempt + 1))])
    \<and> (attempt < max_retries cfg \<and> \<not> pause_event s
        \<and> \<not> wakes sid (gate_ops e (attempt + 1)) \<longrightarrow>
          retry_loop cfg e payload run_label sid attempt last_exc w = (Blocked, attempt + 1, w))"
proof -
  have a: "cancel sid (sessions w) =
      (sessions w)(sid \<mapsto> s\<lparr>cancel_flag := True, pause_event := True\<rparr>)"
    using assms by (simp add: cancel_def)
  have b: "is_cancelled sid (cancel sid (sessions w))"
    and c: "get_event sid (cancel sid (sessions w)) = Some True"
    by (simp_all add: a is_cancelled_def get_event_def)
  have d: "wait_gate e sid (attempt + 1) w = Some (others (gate_ops e (attempt + 1)) w)
        \<and> is_cancelled sid (sessions (others (gate_ops e (attempt + 1)) w))
        \<and> retry_loop cfg e payload run_label sid attempt last_exc w =
            (Returned (Error_result ''CANCELLED''), attempt + 1,
             write_log (Cancelled run_label (attempt + 1)) (others (gate_ops e (attempt + 1)) w))
        \<and> trace (write_log (Cancelled run_label (attempt + 1))
                   (others (gate_ops e (attempt + 1)) w))
            = trace w @ [Log (Cancelled run_label (attempt + 1))]"
    if lt: "attempt < max_retries cfg" and closed: "\<not> pause_event s"
      and cn: "Cancel sid \<in> set (gate_ops e (attempt + 1))"
  proof -
    have wg: "wait_gate e sid (attempt + 1) w = Some (others (gate_ops e (attempt + 1)) w)"
      using assms closed cn by (simp add: wait_gate_def get_event_def wakes_def)
    have ic: "is_cancelled sid (sessions (others (gate_ops e (attempt + 1)) w))"
      using cancel_among_controls[OF cn, of "sessions w"] assms
      by (auto simp: others_def)
    show ?thesis
      using wg ic retry_loop_cancelled[OF lt wg ic]
      by (simp add: trace_write_log trace_others)
  qed
  have f: "retry_loop cfg e payload run_label sid attempt last_exc w = (Blocked, attempt + 1, w)"
    if lt: "attempt < max_retries cfg" and closed: "\<not> pause_event s"
      and nw: "\<not> wakes sid (gate_ops e (attempt + 1))"
  proof -
    have "wait_gate e sid (attempt + 1) w = None"
      using assms closed nw by (simp add: wait_gate_def get_event_def)
    then show ?thesis by (rule retry_loop_blocked[OF lt])
  qed
  from a b c d f show ?thesis by blast
qed

theorem cancel_wakes_blocked_task_witness:
  "sessions paused_world ''s1'' = Some \<lparr>paused = True, pause_event = False, cancel_flag = False\<rparr>
   \<and> (0::int) < max_retries default_config
   \<and> Cancel ''s1'' \<in> set (gate_ops cancelling_env (0 + 1))
   \<and> is_cancelled ''s1'' (cancel ''s1'' (sessions paused_world))
   \<and> retry_loop default_config cancelling_env PNone ''Migration:a'' ''s1'' 0 None paused_world =
       (Returned (Error_result ''CANCELLED''), 0 + 1,
        write_log (Cancelled ''Migration:a'' (0 + 1))
          (others (gate_ops cancelling_env (0 + 1)) paused_world))
   \<and> fst (observe_run default_config cancelling_env (PList [PStr ''a.xhtml''])
          ''Migration:a'' (Some ''s1'') False paused_world) = Returned (Error_result ''CANCELLED'')
   \<and> trace (snd (observe_run default_config cancelling_env (PList [PStr ''a.xhtml''])
          ''Migration:a'' (Some ''s1'') False paused_world))
       = [Log (Cancelled ''Migration:a'' 1), Log (Finished_observe_run ''Migration:a'' 0 1)]"
  using cancel_wakes_blocked_task[of paused_world "''s1''"
      "\<lparr>paused = True, pause_event = False, cancel_flag = False\<rparr>" 0 default_config
      cancelling_env PNone "''Migration:a''" None]
    cancelled_run
  by (simp add: paused_world_def world0_def cancelling_env_def quiet_env_def default_config_def
        is_cancelled_def cancel_def)

section \<open>The memory bank: save, load, clear\<close>



section \<open>The aggregation pass: backoff schedule\<close>

lemma evaluation_loop_quota:
  assumes "quota_text (summary_of result)"
  shows "evaluation_loop recorded page result 0 30 evaluations 0 w =
     (evaluations,
      recorded page 1 + recorded page 2 + recorded page 3 + recorded page 4 + recorded page 5,
      w\<lparr>trace := trace w @
        [Log (Evaluation_backoff page 1 30), Sleep 30,
         Log (Evaluation_backoff page 2 60), Sleep 60,
         Log (Evaluation_backoff page 3 120), Sleep 120,
         Log (Evaluation_backoff page 4 240), Sleep 240,
         Log (Evaluation_backoff page 5 480), Sleep 480]\<rparr>)"
  using assms
  by (simp add: evaluation_loop.simps max_eval_retries_def Let_def quota_text_def summary_of_def
        write_log_def emit_def)

lemma evaluation_loop_overloaded:
  assumes "\<not> quota_text (summary_of result)" "overloaded_text (summary_of result)"
  shows "evaluation_loop recorded page result 0 30 evaluations 0 w =
     (evaluations,
      recorded page 1 + recorded page 2 + recorded page 3 + recorded page 4 + recorded page 5,
      w\<lparr>trace := trace w @
        [Log (Evaluation_model_overloaded page 1 30), Sleep 30,
         Log (Evaluation_model_overloaded page 2 45), Sleep 45,
         Log (Evaluation_model_overloaded page 3 (135 / 2)), Sleep (135 / 2),
         Log (Evaluation_model_overloaded page 4 (405 / 4)), Sleep (405 / 4),
         Log (Evaluation_model_overloaded page 5 (1215 / 8)), Sleep (1215 / 8)]\<rparr>)"
  using assms
  by (simp add: evaluation_loop.simps max_eval_retries_def Let_def quota_text_def
        overloaded_text_def summary_of_def write_log_def emit_def)

lemma evaluation_loop_clean:
  assumes "\<not> quota_text (summary_of result)" "\<not> overloaded_text (summary_of result)"
  shows "evaluation_loop recorded page result 0 30 evaluations 0 w =
     (evaluations(page \<mapsto> full_evaluation result), 0, w)"
  using assms
  by (subst evaluation_loop.simps)
     (simp add: max_eval_retries_def Let_def quota_text_def
        overloaded_text_def summary_of_def full_evaluation_def)

lemma evaluate_page_result:
  assumes "page \<notin> dom evaluations"
  shows "\<exists>late w'. evaluate_page recorded page result evaluations w =
      (evaluations(page \<mapsto>
         (if quota_text (summary_of result) \<or> overloaded_text (summary_of result)
          then deferred_evaluation result else full_evaluation result)),
       late, w')
     \<and> ((\<forall>k. recorded page k = 0) \<longrightarrow> late = 0)"
proof (cases "quota_text (summary_of result)")
  case True
  with assms show ?thesis
    by (simp add: evaluate_page_def evaluation_loop_quota deferred_evaluation_def)
next
  case nq: False
  show ?thesis
  proof (cases "overloaded_text (summary_of result)")
    case True
    with nq assms show ?thesis
      by (simp add: evaluate_page_def evaluation_loop_overloaded deferred_evaluation_def)
  next
    case False
    with nq assms show ?thesis
      by (simp add: evaluate_page_def evaluation_loop_clean)
  qed
qed

lemma aggregate_result:
  assumes "\<forall>p k. recorded p k = 0"
  shows "distinct (map fst results) \<Longrightarrow> fst ` set results \<inter> dom evaluations = {} \<Longrightarrow>
    \<exists>evs w'. aggregate recorded results evaluations w = Inr (evs, w')
      \<and> dom evs = dom evaluations \<union> fst ` set results
      \<and> (\<forall>p. p \<notin> fst ` set results \<longrightarrow> evs p = evaluations p)
      \<and> (\<forall>(p, r) \<in> set results. evs p =
            Some (if quota_text (summary_of r) \<or> overloaded_text (summary_of r)
                  then deferred_evaluation r else full_evaluation r))"
proof (induction results arbitrary: evaluations w)
  case Nil
  then show ?case by simp
next
  case (Cons pr results)
  obtain page result where pr: "pr = (page, result)" by (cases pr)
  from Cons(3) pr have fresh: "page \<notin> dom evaluations" by auto
  from evaluate_page_result[OF fresh, of recorded result w] assms
  obtain w1 where ev: "evaluate_page recorded page result evaluations w =
      (evaluations(page \<mapsto>
         (if quota_text (summary_of result) \<or> overloaded_text (summary_of result)
          then deferred_evaluation result else full_evaluation result)),
       0, w1)"
    by auto
  define evs1 where "evs1 = evaluations(page \<mapsto>
         (if quota_text (summary_of result) \<or> overloaded_text (summary_of result)
          then deferred_evaluation result else full_evaluation result))"
  have d: "distinct (map fst results)" and np: "page \<notin> fst ` set results"
    using Cons(2) pr by auto
  have disj: "fst ` set results \<inter> dom evs1 = {}"
    using Cons(3) np by (auto simp: evs1_def)
  from Cons(1)[OF d disj, of w1]
  obtain evs w' where rest: "aggregate recorded results evs1 w1 = Inr (evs, w')"
    "dom evs = dom evs1 \<union> fst ` set results"
    "\<forall>p. p \<notin> fst ` set results \<longrightarrow> evs p = evs1 p"
    "\<forall>(p, r) \<in> set results. evs p =
            Some (if quota_text (summary_of r) \<or> overloaded_text (summary_of r)
                  then deferred_evaluation r else full_evaluation r)"
    by blast
  have "aggregate recorded (pr # results) evaluations w = Inr (evs, w')"
    using ev rest(1) by (simp add: pr evs1_def)
  moreover have "dom evs = dom evaluations \<union> fst ` set (pr # results)"
    using rest(2) by (auto simp: evs1_def pr)
  moreover have "\<forall>p. p \<notin> fst ` set (pr # results) \<longrightarrow> evs p = evaluations p"
    using rest(3) by (auto simp: evs1_def pr)
  moreover have "\<forall>(p, r) \<in> set (pr # results). evs p =
            Some (if quota_text (summary_of r) \<or> overloaded_text (summary_of r)
                  then deferred_evaluation r else full_evaluation r)"
    using rest(3,4) np by (auto simp: evs1_def pr)
  ultimately show ?case by blast
qed

lemma two_results_summaries:
  "summary_of (Runner_result ''HTTP 429 Too Many Requests'') = ''http 429 too many requests''"
  "summary_of (Runner_result ''done'') = ''done''"
  "summary_of (Runner_result ''HTTP 503'') = ''http 503''"
  by (simp_all add: summary_of_def lower_def lower_char_def)

text \<open>
  C1, as stated, fails on the code: with quota-pattern text the second delay is 60
  seconds, twice the first and not 1.5 times; and the first delay for \<^verbatim>\<open>503\<close> text is
  the 30 seconds of the quota pattern, not less.
\<close>

theorem evaluation_backoff_factor_counterexample:
  "sleeps_of (trace (snd (snd (evaluate_page (\<lambda>p k. 0) ''a.xhtml''
        (Runner_result ''HTTP 429 Too Many Requests'') Map.empty world0)))) ! 1
     \<noteq> sleeps_of (trace (snd (snd (evaluate_page (\<lambda>p k. 0) ''a.xhtml''
        (Runner_result ''HTTP 429 Too Many Requests'') Map.empty world0)))) ! 0 * (3 / 2)
   \<and> \<not> sleeps_of (trace (snd (snd (evaluate_page (\<lambda>p k. 0) ''a.xhtml''
        (Runner_result ''HTTP 503'') Map.empty world0)))) ! 0
       < sleeps_of (trace (snd (snd (evaluate_page (\<lambda>p k. 0) ''a.xhtml''
        (Runner_result ''HTTP 429 Too Many Requests'') Map.empty world0)))) ! 0"
proof -
  have q: "quota_text (summary_of (Runner_result ''HTTP 429 Too Many Requests''))"
    and nq: "\<not> quota_text (summary_of (Runner_result ''HTTP 503''))"
    and ov: "overloaded_text (summary_of (Runner_result ''HTTP 503''))"
    by (simp_all add: two_results_summaries quota_text_def overloaded_text_def)
  show ?thesis
    by (simp add: evaluate_page_def evaluation_loop_quota[OF q]
          evaluation_loop_overloaded[OF nq ov] world0_def)
qed

text \<open>
  C1, amended. For a page with a recorded result, the loop makes at most 5 attempts, and
  the two patterns share one wait that starts at 30 seconds. With quota-pattern text
  (\<^verbatim>\<open>resource_exhausted\<close>, \<^verbatim>\<open>quota\<close>, \<^verbatim>\<open>429\<close>) in the lower-case first 2000 characters
  of the stringified result, each of the 5 attempts logs \<^verbatim>\<open>evaluation_backoff\<close> and
  sleeps, and the wait doubles after each sleep: 30, 60, 120, 240, 480. With
  \<^verbatim>\<open>unavailable\<close> or \<^verbatim>\<open>503\<close> text and no quota-pattern text, each of the 5 attempts logs
  \<^verbatim>\<open>evaluation_model_overloaded\<close> and sleeps, and the wait grows by the factor 1.5
  after each sleep, from the same 30 seconds. With neither, the first attempt records
  the evaluation and nothing is slept.
\<close>

theorem evaluation_backoff_schedule:
  "(quota_text (summary_of result) \<and> page \<notin> dom evaluations \<longrightarrow>
      evaluate_page recorded page result evaluations w =
        (evaluations(page \<mapsto> deferred_evaluation result),
         recorded page 1 + recorded page 2 + recorded page 3 + recorded page 4
           + recorded page 5,
         w\<lparr>trace := trace w @
           [Log (Evaluation_backoff page 1 30), Sleep 30,
            Log (Evaluation_backoff page 2 60), Sleep 60,
            Log (Evaluation_backoff page 3 120), Sleep 120,
            Log (Evaluation_backoff page 4 240), Sleep 240,
            Log (Evaluation_backoff page 5 480), Sleep 480]\<rparr>)
      \<and> [30, 60, 120, 240, 480] = map (\<lambda>k. (30::rat) * 2 ^ k) [0..<5])
   \<and> (\<not> quota_text (summary_of result) \<and> overloaded_text (summary_of result)
       \<and> page \<notin> dom evaluations \<longrightarrow>
      evaluate_page recorded page result evaluations w =
        (evaluations(page \<mapsto> deferred_evaluation result),
         recorded page 1 + recorded page 2 + recorded page 3 + recorded page 4
           + recorded page 5,
         w\<lparr>trace := trace w @
           [Log (Evaluation_model_overloaded page 1 30), Sleep 30,
            Log (Evaluation_model_overloaded page 2 45), Sleep 45,
            Log (Evaluation_model_overloaded page 3 (135 / 2)), Sleep (135 / 2),
            Log (Evaluation_model_overloaded page 4 (405 / 4)), Sleep (405 / 4),
            Log (Evaluation_model_overloaded page 5 (1215 / 8)), Sleep (1215 / 8)]\<rparr>)
      \<and> [30, 45, 135 / 2, 405 / 4, 1215 / 8] = map (\<lambda>k. (30::rat) * (3 / 2) ^ k) [0..<5])
   \<and> (\<not> quota_text (summary_of result) \<and> \<not> overloaded_text (summary_of result) \<longrightarrow>
      evaluate_page recorded page result evaluations w =
        (evaluations(page \<mapsto> full_evaluation result), 0, w))"
proof -
  have "[30, 60, 120, 240, 480] = map (\<lambda>k. (30::rat) * 2 ^ k) [0..<5]"
    and "[30, 45, 135 / 2, 405 / 4, 1215 / 8] = map (\<lambda>k. (30::rat) * (3 / 2) ^ k) [0..<5]"
    by (simp_all add: upt_rec power_divide)
  then show ?thesis
    using evaluation_loop_quota[of result recorded page evaluations w]
      evaluation_loop_overloaded[of result recorded page evaluations w]
      evaluation_loop_clean[of result recorded page evaluations w]
    by (simp add: evaluate_page_def deferred_evaluation_def)
qed

theorem evaluation_backoff_schedule_witness:
  "quota_text (summary_of (Runner_result ''HTTP 429 Too Many Requests''))
   \<and> \<not> quota_text (summary_of (Runner_result ''HTTP 503''))
   \<and> overloaded_text (summary_of (Runner_result ''HTTP 503''))
   \<and> ''a.xhtml'' \<notin> dom (Map.empty :: string \<rightharpoonup> evaluation)
   \<and> sleeps_of (trace (snd (snd (evaluate_page (\<lambda>p k. 0) ''a.xhtml''
        (Runner_result ''HTTP 429 Too Many Requests'') Map.empty world0))))
       = [30, 60, 120, 240, 480]
   \<and> sleeps_of (trace (snd (snd (evaluate_page (\<lambda>p k. 0) ''a.xhtml''
        (Runner_result ''HTTP 503'') Map.empty world0))))
       = [30, 45, 135 / 2, 405 / 4, 1215 / 8]"
  using evaluation_backoff_schedule[of "Runner_result ''HTTP 429 Too Many Requests''"
      "''a.xhtml''" Map.empty "\<lambda>p k. 0" world0]
    evaluation_backoff_schedule[of "Runner_result ''HTTP 503''"
      "''a.xhtml''" Map.empty "\<lambda>p k. 0" world0]
  by (simp add: two_results_summaries quota_text_def overloaded_text_def world0_def)

section \<open>The aggregation pass: degraded evaluations\<close>

text \<open>
  With results that stay as they are while the pass runs. A page whose inspected text
  (the lower-case first 2000 characters of the stringified result) contains \<^verbatim>\<open>429\<close>
  backs off in each of the 5 attempts and ends with the record of score 5 whose issues
  hold the deferred-evaluation mark. When no fan-out task stores a result while the pass
  runs, the pass returns, and every page with a recorded result has one evaluation
  record: the full one when its text has no signature, the deferred one otherwise.
\<close>

lemma aggregation_with_fixed_results:
  "(py_in ''429'' (summary_of result) \<and> page \<notin> dom evaluations \<longrightarrow>
      evaluate_page recorded page result evaluations w =
        (evaluations(page \<mapsto>
           \<lparr>score = 5, issues = [''Evaluation deferred due to quota exhaustion''],
            summary = take 1000 (py_str result)\<rparr>),
         recorded page 1 + recorded page 2 + recorded page 3 + recorded page 4
           + recorded page 5,
         w\<lparr>trace := trace w @
           [Log (Evaluation_backoff page 1 30), Sleep 30,
            Log (Evaluation_backoff page 2 60), Sleep 60,
            Log (Evaluation_backoff page 3 120), Sleep 120,
            Log (Evaluation_backoff page 4 240), Sleep 240,
            Log (Evaluation_backoff page 5 480), Sleep 480]\<rparr>))
   \<and> ((\<forall>p k. recorded p k = 0) \<and> distinct (map fst migration_results) \<longrightarrow>
        (\<exists>evs w'. aggregation_pass recorded migration_results w = Inr (evs, w')
           \<and> dom evs = fst ` set migration_results
           \<and> (\<forall>(p, r) \<in> set migration_results. evs p =
                 Some (if quota_text (summary_of r) \<or> overloaded_text (summary_of r)
                       then deferred_evaluation r else full_evaluation r))))"
proof -
  have "evaluate_page recorded page result evaluations w =
        (evaluations(page \<mapsto>
           \<lparr>score = 5, issues = [''Evaluation deferred due to quota exhaustion''],
            summary = take 1000 (py_str result)\<rparr>),
         recorded page 1 + recorded page 2 + recorded page 3 + recorded page 4
           + recorded page 5,
         w\<lparr>trace := trace w @
           [Log (Evaluation_backoff page 1 30), Sleep 30,
            Log (Evaluation_backoff page 2 60), Sleep 60,
            Log (Evaluation_backoff page 3 120), Sleep 120,
            Log (Evaluation_backoff page 4 240), Sleep 240,
            Log (Evaluation_backoff page 5 480), Sleep 480]\<rparr>)"
    if "py_in ''429'' (summary_of result)" "page \<notin> dom evaluations"
  proof -
    from that(1) have "quota_text (summary_of result)" by (simp add: quota_text_def)
    with that(2) show ?thesis
      by (simp add: evaluate_page_def evaluation_loop_quota)
  qed
  moreover have "\<exists>evs w'. aggregation_pass recorded migration_results w = Inr (evs, w')
           \<and> dom evs = fst ` set migration_results
           \<and> (\<forall>(p, r) \<in> set migration_results. evs p =
                 Some (if quota_text (summary_of r) \<or> overloaded_text (summary_of r)
                       then deferred_evaluation r else full_evaluation r))"
    if "\<forall>p k. recorded p k = 0" "distinct (map fst migration_results)"
  proof -
    from aggregate_result[OF that(1) that(2), of Map.empty w]
    obtain evs w' where "aggregate recorded migration_results Map.empty w = Inr (evs, w')"
      "dom evs = dom (Map.empty :: string \<rightharpoonup> evaluation) \<union> fst ` set migration_results"
      "\<forall>(p, r) \<in> set migration_results. evs p =
                 Some (if quota_text (summary_of r) \<or> overloaded_text (summary_of r)
                       then deferred_evaluation r else full_evaluation r)"
      by auto
    then show ?thesis
      by (intro exI[of _ evs] exI[of _ w']) (simp add: aggregation_pass_def)
  qed
  ultimately show ?thesis by blast
qed

lemma aggregation_with_fixed_results_example:
  "py_in ''429'' (summary_of (Runner_result ''HTTP 429 Too Many Requests''))
   \<and> ''a.xhtml'' \<notin> dom (Map.empty :: string \<rightharpoonup> evaluation)
   \<and> distinct (map fst two_results)
   \<and> fst (evaluate_page (\<lambda>p k. 0) ''a.xhtml'' (Runner_result ''HTTP 429 Too Many Requests'')
            Map.empty world0) ''a.xhtml''
       = Some \<lparr>score = 5, issues = [''Evaluation deferred due to quota exhaustion''],
               summary = ''HTTP 429 Too Many Requests''\<rparr>
   \<and> (\<exists>evs w'. aggregation_pass (\<lambda>p k. 0) two_results world0 = Inr (evs, w')
         \<and> dom evs = {''a.xhtml'', ''b.xhtml''}
         \<and> evs ''a.xhtml'' = Some \<lparr>score = 5,
               issues = [''Evaluation deferred due to quota exhaustion''],
               summary = ''HTTP 429 Too Many Requests''\<rparr>
         \<and> evs ''b.xhtml'' = Some \<lparr>score = 9, issues = [], summary = ''done''\<rparr>)"
  using aggregation_with_fixed_results[of "Runner_result ''HTTP 429 Too Many Requests''" "''a.xhtml''"
      Map.empty "\<lambda>p k. 0" world0 two_results]
  by (simp add: two_results_def two_results_summaries quota_text_def overloaded_text_def
        deferred_evaluation_def full_evaluation_def)

text \<open>
  C7. The pass does raise, and leaves recorded results without an evaluation record,
  when \<^verbatim>\<open>migration_results\<close> grows while it runs. After a cancellation the fan-out loop
  (lines 482-486) leaves its tasks running; the pass sleeps for a page whose text
  contains \<^verbatim>\<open>429\<close> (line 512); a task ends meanwhile and stores its result (line 476);
  the next step of the iteration of line 495 raises \<^verbatim>\<open>RuntimeError\<close>. Here the results
  are those of \<^verbatim>\<open>a.xhtml\<close>, with \<^verbatim>\<open>429\<close> in its text, and of \<^verbatim>\<open>b.xhtml\<close>, and one more
  result is stored during the first sleep: the loop of \<^verbatim>\<open>a.xhtml\<close> ends with its
  deferred record, and the pass raises before it reaches \<^verbatim>\<open>b.xhtml\<close>.
\<close>

theorem aggregation_raises_when_results_grow:
  "evaluate_page one_late_result ''a.xhtml'' (Runner_result ''HTTP 429 Too Many Requests'')
     Map.empty world0 =
     ([''a.xhtml'' \<mapsto> \<lparr>score = 5, issues = [''Evaluation deferred due to quota exhaustion''],
                        summary = ''HTTP 429 Too Many Requests''\<rparr>],
      1,
      world0\<lparr>trace :=
        [Log (Evaluation_backoff ''a.xhtml'' 1 30), Sleep 30,
         Log (Evaluation_backoff ''a.xhtml'' 2 60), Sleep 60,
         Log (Evaluation_backoff ''a.xhtml'' 3 120), Sleep 120,
         Log (Evaluation_backoff ''a.xhtml'' 4 240), Sleep 240,
         Log (Evaluation_backoff ''a.xhtml'' 5 480), Sleep 480]\<rparr>)
   \<and> aggregation_pass one_late_result two_results world0 = Inl RuntimeError"
proof -
  have q: "quota_text (summary_of (Runner_result ''HTTP 429 Too Many Requests''))"
    by (simp add: two_results_summaries quota_text_def)
  show ?thesis
    by (simp add: aggregation_pass_def two_results_def evaluate_page_def
          evaluation_loop_quota[OF q] one_late_result_def world0_def)
qed

section \<open>The aggregation pass: results without a signature\<close>

lemma py_in_sublist: "py_in p s = sublist p s"
proof (induction s)
  case Nil
  then show ?case by simp
next
  case (Cons c s)
  then show ?case by (cases p) (simp_all add: sublist_Cons_right)
qed

lemma py_in_take: "py_in p (take n s) \<Longrightarrow> py_in p s"
proof -
  assume "py_in p (take n s)"
  then obtain ps ss where "take n s = ps @ p @ ss"
    by (auto simp: py_in_sublist sublist_def)
  then have "s = ps @ p @ (ss @ drop n s)"
    by (metis append.assoc append_take_drop_id)
  then show "py_in p s"
    unfolding py_in_sublist sublist_def by blast
qed

lemma py_in_separator:
  assumes "c \<notin> set p" "py_in p (a @ c # b)"
  shows "py_in p a \<or> py_in p b"
proof -
  from assms(2) have "sublist p (a @ c # b)" by (simp add: py_in_sublist)
  then consider "sublist p a" | "sublist p (c # b)"
    | xs1 xs2 where "p = xs1 @ xs2" "suffix xs1 a" "prefix xs2 (c # b)"
    by (auto simp: sublist_append)
  then show ?thesis
  proof cases
    case 1
    then show ?thesis by (simp add: py_in_sublist)
  next
    case 2
    then have "prefix p (c # b) \<or> sublist p b" by (simp add: sublist_Cons_right)
    then show ?thesis
    proof
      assume "prefix p (c # b)"
      with assms(1) have "p = []" by (cases p) auto
      then show ?thesis by (simp add: py_in_sublist)
    next
      assume "sublist p b"
      then show ?thesis by (simp add: py_in_sublist)
    qed
  next
    case 3
    show ?thesis
    proof (cases xs2)
      case Nil
      with 3(1,2) obtain zs where "a = zs @ p @ []" by (auto simp: suffix_def)
      then have "sublist p a" unfolding sublist_def by blast
      then show ?thesis by (simp add: py_in_sublist)
    next
      case (Cons x xs)
      with 3(3) have "c \<in> set xs2" by auto
      with 3(1) assms(1) show ?thesis by simp
    qed
  qed
qed

lemma py_repr_plain: "plain s \<Longrightarrow> py_repr s = CHR 0x27 # s @ [CHR 0x27]"
proof -
  assume p: "plain s"
  then have nq: "CHR 0x27 \<notin> set s" by (auto simp: plain_def list_all_iff)
  have "concat (map (repr_char (CHR 0x27)) s) = s"
    using p by (induction s) (auto simp: plain_def repr_char_def)
  with nq show ?thesis by (simp add: py_repr_def Let_def)
qed

lemma py_in_wrapped:
  assumes "c \<notin> set p" "\<not> py_in p a" "\<not> py_in p m" "\<not> py_in p b"
  shows "\<not> py_in p (a @ c # m @ c # b)"
proof
  assume "py_in p (a @ c # m @ c # b)"
  with py_in_separator[OF assms(1), of a "m @ c # b"] assms(2)
  have "py_in p (m @ c # b)" by blast
  with py_in_separator[OF assms(1), of m b] assms(3,4) show False by blast
qed

lemma lower_append: "lower (a @ b) = lower a @ lower b"
  by (simp add: lower_def)

lemma summary_of_error_plain:
  assumes "plain msg"
  shows "summary_of (Error_result msg) =
     take 2000 ((''{'' @ [CHR 0x27] @ ''error'' @ [CHR 0x27] @ '':'' @ '' '')
                @ CHR 0x27 # lower msg @ CHR 0x27 # ''}'')"
proof -
  have "plain ''error''" by (simp add: plain_def)
  with assms have str: "py_str (Error_result msg) =
      (''{'' @ [CHR 0x27] @ ''error'' @ [CHR 0x27] @ '':'' @ '' '')
        @ CHR 0x27 # msg @ CHR 0x27 # ''}''"
    by (simp add: py_repr_plain)
  have low: "lower ((''{'' @ [CHR 0x27] @ ''error'' @ [CHR 0x27] @ '':'' @ '' '')
        @ CHR 0x27 # msg @ CHR 0x27 # ''}'')
      = (''{'' @ [CHR 0x27] @ ''error'' @ [CHR 0x27] @ '':'' @ '' '')
        @ CHR 0x27 # lower msg @ CHR 0x27 # ''}''"
    by (simp add: lower_def lower_char_def)
  have "summary_of (Error_result msg) = take 2000 (lower (py_str (Error_result msg)))"
    by (simp only: summary_of_def lower_def take_map)
  then show ?thesis by (simp only: str low)
qed

lemma signature_free_error_result:
  assumes "plain msg" "signature_free (lower msg)"
  shows "signature_free (summary_of (Error_result msg))"
proof -
  have "\<not> py_in p (summary_of (Error_result msg))"
    if "CHR 0x27 \<notin> set p" "\<not> py_in p (lower msg)"
      "\<not> py_in p (''{'' @ [CHR 0x27] @ ''error'' @ [CHR 0x27] @ '':'' @ '' '')"
      "\<not> py_in p ''}''" for p
    using py_in_wrapped[OF that(1) that(3) that(2) that(4)] py_in_take
    unfolding summary_of_error_plain[OF assms(1)] by blast
  from this[of "''resource_exhausted''"] this[of "''quota''"] this[of "''429''"]
    this[of "''unavailable''"] this[of "''503''"] assms(2)
  show ?thesis
    by (simp add: signature_free_def quota_text_def overloaded_text_def)
qed

lemma signature_free_exhausted:
  assumes "plain msg" "signature_free (lower msg)"
  shows "plain (''Max retries exceeded: '' @ msg)
    \<and> signature_free (lower (''Max retries exceeded: '' @ msg))"
proof -
  have low: "lower (''Max retries exceeded: '' @ msg)
      = ''max retries exceeded:'' @ CHR '' '' # lower msg"
    by (simp add: lower_def lower_char_def)
  have "\<not> py_in p (lower (''Max retries exceeded: '' @ msg))"
    if "CHR '' '' \<notin> set p" "\<not> py_in p (lower msg)" "\<not> py_in p ''max retries exceeded:''" for p
    using py_in_separator[OF that(1), of "''max retries exceeded:''" "lower msg"] that(2,3)
    unfolding low by blast
  from this[of "''resource_exhausted''"] this[of "''quota''"] this[of "''429''"]
    this[of "''unavailable''"] this[of "''503''"] assms(2)
  have "signature_free (lower (''Max retries exceeded: '' @ msg))"
    by (simp add: signature_free_def quota_text_def overloaded_text_def)
  moreover have "plain (''Max retries exceeded: '' @ msg)"
    using assms(1) by (simp add: plain_def)
  ultimately show ?thesis by blast
qed

text \<open>
  C10. A result whose inspected text contains none of \<^verbatim>\<open>resource_exhausted\<close>,
  \<^verbatim>\<open>quota\<close>, \<^verbatim>\<open>429\<close>, \<^verbatim>\<open>unavailable\<close>, \<^verbatim>\<open>503\<close> gets the record of score 9 with no
  issues in the first attempt: nothing is logged and nothing is slept. This holds of the
  error results of the executor too: of \<^verbatim>\<open>{"error": "CANCELLED"}\<close>, and of the results of
  a fatal failure and of exhausted retries whose message is plain and has none of the
  signatures.
\<close>

theorem clean_result_full_score:
  "(signature_free (summary_of result) \<longrightarrow>
      evaluate_page recorded page result evaluations w =
        (evaluations(page \<mapsto>
           \<lparr>score = 9, issues = [], summary = take 1000 (py_str result)\<rparr>), 0, w))
   \<and> (plain msg \<and> signature_free (lower msg) \<longrightarrow>
        signature_free (summary_of (Error_result msg))
        \<and> signature_free (summary_of (Error_result (''Max retries exceeded: '' @ msg))))
   \<and> signature_free (summary_of (Error_result ''CANCELLED''))"
proof -
  have "evaluate_page recorded page result evaluations w =
        (evaluations(page \<mapsto>
           \<lparr>score = 9, issues = [], summary = take 1000 (py_str result)\<rparr>), 0, w)"
    if "signature_free (summary_of result)"
    using that
    by (simp add: evaluate_page_def evaluation_loop_clean signature_free_def
          full_evaluation_def)
  moreover have "signature_free (summary_of (Error_result msg))
        \<and> signature_free (summary_of (Error_result (''Max retries exceeded: '' @ msg)))"
    if "plain msg" "signature_free (lower msg)"
    using signature_free_error_result[OF that]
      signature_free_exhausted[OF that] signature_free_error_result
    by blast
  moreover have "signature_free (summary_of (Error_result ''CANCELLED''))"
  proof (rule signature_free_error_result)
    show "plain ''CANCELLED''" by (simp add: plain_def)
    show "signature_free (lower ''CANCELLED'')"
      by (simp add: signature_free_def quota_text_def overloaded_text_def lower_def
            lower_char_def)
  qed
  ultimately show ?thesis by blast
qed

theorem clean_result_full_score_witness:
  "plain ''File not found'' \<and> signature_free (lower ''File not found'')
   \<and> signature_free (summary_of (Error_result ''File not found''))
   \<and> signature_free (summary_of (Error_result ''CANCELLED''))
   \<and> evaluate_page (\<lambda>p k. 0) ''a.xhtml'' (Error_result ''CANCELLED'') Map.empty world0 =
        ([''a.xhtml'' \<mapsto> \<lparr>score = 9, issues = [],
            summary = take 1000 (py_str (Error_result ''CANCELLED''))\<rparr>], 0, world0)"
  using clean_result_full_score[of "Error_result ''CANCELLED''" "\<lambda>p k. 0" "''a.xhtml''"
      Map.empty world0 "''File not found''"]
  by (simp add: plain_def signature_free_def quota_text_def overloaded_text_def lower_def
        lower_char_def)

end
